theory Spec2Isabelle
  imports Complex_Main
begin

section \<open>Data model\<close>

text \<open>
  The grid trading bot works on JavaScript numbers.  Prices, limits and amounts are
  modelled as \<^typ>\<open>real\<close> (no NaN), level indices and the grid count as \<^typ>\<open>int\<close>.  A
  double is a real number and doubles are compared exactly, so every comparison of the source
  is the comparison of the model.  The amounts of a trade are computed in exact arithmetic:
  they are recorded and never compared.  The boundaries that an edit of the limits computes
  decide the level it stores, so there the double operations are parameters (see
  \<open>doubleArith\<close> below).  A value that may be \<open>null\<close> or \<open>undefined\<close> in the source
  is an \<open>option\<close>.

  \<open>IGrid\<close> (database/models/grid.model.ts).  The field \<open>_id\<close> is called \<open>grid_id\<close>.
  \<open>levels\<close> is a JavaScript object from level index to boundary price; it is kept as the
  association list that \<open>Object.entries\<close> returns.  The fields that none of the modelled
  operations reads or writes (\<open>profit\<close>, \<open>currentValue\<close>, the two timestamps) are left out.
\<close>

record grid =
  grid_id :: string
  sourceTokenSymbol :: string
  targetTokenSymbol :: string
  sourceTokenId :: string
  targetTokenId :: string
  upperLimit :: real
  lowerLimit :: real
  gridCount :: int
  quantityInvested :: real
  levels :: "(int \<times> real) list"
  totalBuys :: int
  totalSells :: int
  currentPrice :: "real option"
  currentGridIndex :: "int option"
  sourceTokenAmount :: "real option"
  targetTokenAmount :: "real option"

section \<open>Locating the level of a price\<close>

text \<open>
  The loop shared by \<open>findGridLevelIndex\<close> and \<open>updateGridCurrentPrice\<close>:
  \<^verbatim>\<open>for (let i = 0; i < levels.length - 1; i++)
    if (price >= levels[i].price && price < levels[i + 1].price) return levels[i].index;\<close>
  over the entries sorted by price.  \<open>None\<close> means that the loop ran to its end.
\<close>

fun scanLevels :: "(int \<times> real) list \<Rightarrow> real \<Rightarrow> int option" where
  "scanLevels (a # b # rest) price =
     (if price \<ge> snd a \<and> price < snd b then Some (fst a) else scanLevels (b # rest) price)"
| "scanLevels _ price = None"

text \<open>
  \<open>Object.entries(grid.levels).map(...).sort((a, b) => a.price - b.price)\<close>:
  \<open>Array.prototype.sort\<close> is a stable sort, and so is \<^const>\<open>sort_key\<close>.
\<close>

definition sortedLevels :: "(int \<times> real) list \<Rightarrow> (int \<times> real) list" where
  "sortedLevels lv = sort_key snd lv"

text \<open>\<open>GridTradingBot.findGridLevelIndex\<close>; \<open>Math.floor(gridCount / 2)\<close> is \<open>div 2\<close>.\<close>

definition findGridLevelIndex :: "grid \<Rightarrow> real \<Rightarrow> int" where
  "findGridLevelIndex g price =
     (if price \<ge> upperLimit g then gridCount g
      else if price \<le> lowerLimit g then 0
      else (case scanLevels (sortedLevels (levels g)) price of
              Some i \<Rightarrow> i
            | None \<Rightarrow> gridCount g div 2))"

text \<open>
  The test \<open>price >= levels[i] && price < levels[i + 1]\<close> on the level object itself, as
  \<open>updateGridPriceLimits\<close> writes it; a comparison with a missing entry is false.
\<close>

definition inLevel :: "(int \<times> real) list \<Rightarrow> int \<Rightarrow> real \<Rightarrow> bool" where
  "inLevel lv i price =
     (case map_of lv i of
        None \<Rightarrow> False
      | Some lo \<Rightarrow> (case map_of lv (i + 1) of
                     None \<Rightarrow> False
                   | Some hi \<Rightarrow> price \<ge> lo \<and> price < hi))"

text \<open>
  The invariants of a grid configuration: the level table has exactly the keys
  \<open>0 .. gridCount\<close>, its prices increase strictly, and its first and last prices are the
  two limits.
\<close>

definition wellFormedGrid :: "grid \<Rightarrow> bool" where
  "wellFormedGrid g =
     (map fst (levels g) = [0 .. gridCount g] \<and>
      sorted_wrt (<) (map snd (levels g)) \<and>
      map_of (levels g) 0 = Some (lowerLimit g) \<and>
      map_of (levels g) (gridCount g) = Some (upperLimit g))"

section \<open>Bot state, database and execution venue\<close>

text \<open>
  One entry of \<open>GridTradingBot.gridStateMap\<close>.  The source's field \<open>currentGridIndex\<close>
  is \<open>st_currentGridIndex\<close> here (the grid document has a field of the same name), and
  \<open>tokenAmounts.source\<close>, \<open>tokenAmounts.target\<close> are \<open>tokenAmounts_source\<close> and
  \<open>tokenAmounts_target\<close>.
\<close>

record gridState =
  st_currentGridIndex :: "int option"
  lastCheckedPrice :: "real option"
  tokenAmounts_source :: real
  tokenAmounts_target :: real

datatype tradeSide = BUY | SELL

text \<open>
  The \<open>profit\<close> of a trade row is \<open>undefined\<close>, a number, or \<open>NaN\<close> (a subtraction whose
  operand is a missing level price).
\<close>

datatype profitValue = Undefined | NaN | Profit real

text \<open>The object handed to \<open>createTrade\<close> (\<open>ITrade\<close> without \<open>executedAt\<close>).\<close>

record trade =
  gridId :: string
  side :: tradeSide
  inputToken :: string
  outputToken :: string
  inputTokenId :: string
  outputTokenId :: string
  inputAmount :: real
  outputAmount :: real
  gridLevel :: int
  transactionHash :: "string option"
  profit :: profitValue

text \<open>The arguments of one call of \<open>quoteAndSwap\<close>, and the part of its result that is read.\<close>

record swapRequest =
  inputMint :: string
  outputMint :: string
  amount :: int
  slippageBps :: int

record swapResult =
  success :: bool
  signature :: "string option"

text \<open>
  What the bot cannot decide by itself: the outcome of the \<open>n\<close>-th call of \<open>quoteAndSwap\<close>
  (a network call; it catches its own exceptions and returns \<open>success: false\<close>), and
  mongoose's \<open>Types.ObjectId.isValid\<close>.
\<close>

record env =
  quoteAndSwap :: "nat \<Rightarrow> swapRequest \<Rightarrow> swapResult"
  objectIdIsValid :: "string \<Rightarrow> bool"

text \<open>
  The state the bot works on: its map of grid states, the \<open>Grid\<close> and \<open>Trade\<close>
  collections, the calls of \<open>quoteAndSwap\<close> made so far, and the crossings announced so far
  (the first statement of \<open>executeBuyTrade\<close> and \<open>executeSellTrade\<close> logs
  \<open>Executing BUY/SELL at level i\<close>).  Database calls are taken to succeed.
\<close>

record world =
  gridStateMap :: "string \<Rightarrow> gridState option"
  gridCollection :: "string \<Rightarrow> grid option"
  tradeCollection :: "trade list"
  swapCalls :: "swapRequest list"
  executing :: "(tradeSide \<times> int) list"

subsection \<open>database/grid.ts\<close>

text \<open>\<open>updateGridTokenAmounts\<close>, through \<open>updateGrid\<close>: a \<open>$set\<close> on the document, if there is one.\<close>

definition updateGridTokenAmounts :: "env \<Rightarrow> string \<Rightarrow> real \<Rightarrow> real \<Rightarrow> world \<Rightarrow> world" where
  "updateGridTokenAmounts e ident src tgt w =
     (if \<not> objectIdIsValid e ident then w
      else (case gridCollection w ident of
              None \<Rightarrow> w
            | Some doc \<Rightarrow>
                w\<lparr>gridCollection := (gridCollection w)
                     (ident \<mapsto> doc\<lparr>sourceTokenAmount := Some src, targetTokenAmount := Some tgt\<rparr>)\<rparr>))"

text \<open>\<open>incrementGridTrades\<close>: \<open>$inc\<close> by the counts that are positive.\<close>

definition incrementGridTrades :: "env \<Rightarrow> string \<Rightarrow> int \<Rightarrow> int \<Rightarrow> world \<Rightarrow> world" where
  "incrementGridTrades e ident buys sells w =
     (if \<not> objectIdIsValid e ident then w
      else (case gridCollection w ident of
              None \<Rightarrow> w
            | Some doc \<Rightarrow>
                w\<lparr>gridCollection := (gridCollection w)
                     (ident \<mapsto> doc\<lparr>totalBuys := totalBuys doc + (if buys > 0 then buys else 0),
                                     totalSells := totalSells doc + (if sells > 0 then sells else 0)\<rparr>)\<rparr>))"

text \<open>
  \<open>updateGridCurrentPrice\<close>: the level index is found again, on the levels of the stored
  document, and stays \<open>null\<close> when no interval of the table holds the price.
\<close>

definition storedLevelIndex :: "(int \<times> real) list \<Rightarrow> real \<Rightarrow> int option" where
  "storedLevelIndex lv price = scanLevels (sortedLevels lv) price"

definition updateGridCurrentPrice :: "env \<Rightarrow> string \<Rightarrow> real \<Rightarrow> world \<Rightarrow> world" where
  "updateGridCurrentPrice e ident price w =
     (if \<not> objectIdIsValid e ident then w
      else (case gridCollection w ident of
              None \<Rightarrow> w
            | Some doc \<Rightarrow>
                w\<lparr>gridCollection := (gridCollection w)
                     (ident \<mapsto> doc\<lparr>currentPrice := Some price,
                                     currentGridIndex := storedLevelIndex (levels doc) price\<rparr>)\<rparr>))"

text \<open>
  \<open>updateGridPriceLimits\<close> computes the boundaries of the new table in double arithmetic
  and rounds each with \<open>Number(price.toFixed(6))\<close>.  The results of these operations are
  not those of the reals, so the operations are parameters: the subtraction, division,
  multiplication and addition of doubles, and \<open>Number(x.toFixed(6))\<close>.
\<close>

record doubleArith =
  dsub :: "real \<Rightarrow> real \<Rightarrow> real"
  ddiv :: "real \<Rightarrow> real \<Rightarrow> real"
  dmul :: "real \<Rightarrow> real \<Rightarrow> real"
  dadd :: "real \<Rightarrow> real \<Rightarrow> real"
  numberToFixed6 :: "real \<Rightarrow> real"

text \<open>
  \<open>for (let i = 0; i <= newGridCount; i++) {
     const price = lowerLimit + (step * i); levels[i] = Number(price.toFixed(6)); }\<close>
\<close>

function buildLevels ::
  "doubleArith \<Rightarrow> real \<Rightarrow> real \<Rightarrow> int \<Rightarrow> int \<Rightarrow> (int \<times> real) list" where
  "buildLevels fl lower step i n =
     (if i \<le> n
      then (i, numberToFixed6 fl (dadd fl lower (dmul fl step (of_int i)))) #
           buildLevels fl lower step (i + 1) n
      else [])"
  by pat_completeness auto
termination
  by (relation "measure (\<lambda>(fl, lower, step, i, n). nat (n + 1 - i))") auto

declare buildLevels.simps [simp del]

text \<open>
  \<open>for (let i = 0; i < newGridCount; i++)
     if (currentPrice >= levels[i] && currentPrice < levels[i + 1]) { currentGridIndex = i; break; }\<close>
\<close>

function reprojectLoop :: "(int \<times> real) list \<Rightarrow> real \<Rightarrow> int \<Rightarrow> int \<Rightarrow> int option" where
  "reprojectLoop lv price i n =
     (if i < n then (if inLevel lv i price then Some i else reprojectLoop lv price (i + 1) n)
      else None)"
  by pat_completeness auto
termination
  by (relation "measure (\<lambda>(lv, price, i, n). nat (n - i))") auto

declare reprojectLoop.simps [simp del]

text \<open>
  \<open>updateGridPriceLimits\<close>.  The result is the updated collection, or \<open>None\<close> where the
  source returns \<open>null\<close> without writing.  A stored \<open>currentPrice\<close> that is \<open>null\<close> or
  \<open>0\<close> is falsy.
\<close>

definition updateGridPriceLimits ::
  "doubleArith \<Rightarrow> env \<Rightarrow> string \<Rightarrow> real \<Rightarrow> real \<Rightarrow> int option \<Rightarrow> world \<Rightarrow> world option"
  where
  "updateGridPriceLimits fl e ident upper lower count w =
     (if \<not> objectIdIsValid e ident then None
      else if upper \<le> lower then None
      else (case gridCollection w ident of
              None \<Rightarrow> None
            | Some existingGrid \<Rightarrow>
                (let newGridCount = (case count of Some c \<Rightarrow> c | None \<Rightarrow> gridCount existingGrid)
                 in if newGridCount < 2 then None
                    else
                      (let step = ddiv fl (dsub fl upper lower) (of_int newGridCount);
                           lv = buildLevels fl lower step 0 newGridCount;
                           idx = (case currentPrice existingGrid of
                                    None \<Rightarrow> None
                                  | Some cp \<Rightarrow>
                                      if cp = 0 then None
                                      else if cp \<le> lower then Some 0
                                      else if cp \<ge> upper then Some newGridCount
                                      else reprojectLoop lv cp 0 newGridCount);
                           doc = existingGrid\<lparr>upperLimit := upper, lowerLimit := lower,
                                              levels := lv, currentGridIndex := idx\<rparr>;
                           doc' = (case count of
                                     Some c \<Rightarrow> doc\<lparr>gridCount := newGridCount\<rparr>
                                   | None \<Rightarrow> doc)
                       in Some (w\<lparr>gridCollection := (gridCollection w)(ident \<mapsto> doc')\<rparr>)))))"

text \<open>
  The boundary of level \<open>i\<close> in the table that \<open>updateGridPriceLimits\<close> writes for the
  limits \<open>upper\<close>, \<open>lower\<close> and \<open>n\<close> levels.
\<close>

definition levelBoundary :: "doubleArith \<Rightarrow> real \<Rightarrow> real \<Rightarrow> int \<Rightarrow> int \<Rightarrow> real" where
  "levelBoundary fl upper lower n i =
     numberToFixed6 fl
       (dadd fl lower (dmul fl (ddiv fl (dsub fl upper lower) (of_int n)) (of_int i)))"

subsection \<open>The trading bot\<close>

text \<open>
  The state that \<open>initialize\<close> records for one loaded grid: \<open>x || null\<close> and \<open>x || 0\<close>
  turn a stored \<open>0\<close> into \<open>null\<close> and \<open>0\<close>.
\<close>

definition initialState :: "grid \<Rightarrow> gridState" where
  "initialState g =
     \<lparr>st_currentGridIndex = (case currentGridIndex g of
                               None \<Rightarrow> None
                             | Some i \<Rightarrow> if i = 0 then None else Some i),
      lastCheckedPrice = (case currentPrice g of
                            None \<Rightarrow> None
                          | Some p \<Rightarrow> if p = 0 then None else Some p),
      tokenAmounts_source = (case sourceTokenAmount g of None \<Rightarrow> 0 | Some a \<Rightarrow> a),
      tokenAmounts_target = (case targetTokenAmount g of None \<Rightarrow> 0 | Some a \<Rightarrow> a)\<rparr>"

text \<open>
  \<open>executeBuyTrade\<close>.  An exception inside is caught and logged: the one that can arise
  here is \<open>new Types.ObjectId(grid._id)\<close> on an invalid id, after the balances and counters
  have been written.  The quotient \<open>quantityInvested / gridCount\<close> is \<open>Infinity\<close> or
  \<open>NaN\<close> in the source when \<open>gridCount\<close> is 0; the statements about amounts below
  require \<open>gridCount \<noteq> 0\<close>.
\<close>

definition executeBuyTrade :: "env \<Rightarrow> grid \<Rightarrow> int \<Rightarrow> world \<Rightarrow> world" where
  "executeBuyTrade e g levelIndex w0 =
     (let w = w0\<lparr>executing := executing w0 @ [(BUY, levelIndex)]\<rparr>
      in case map_of (levels g) levelIndex of
           None \<Rightarrow> w
         | Some levelPrice \<Rightarrow>
             if levelPrice = 0 then w
             else
               (let usdInvestmentPerLevel = quantityInvested g / of_int (gridCount g);
                    sourceAmount = usdInvestmentPerLevel / levelPrice
                in case gridStateMap w (grid_id g) of
                     None \<Rightarrow> w
                   | Some gs \<Rightarrow>
                       (let req = \<lparr>inputMint = sourceTokenId g, outputMint = targetTokenId g,
                                   amount = \<lfloor>usdInvestmentPerLevel * 1000000\<rfloor>, slippageBps = 100\<rparr>;
                            swapRes = quoteAndSwap e (length (swapCalls w)) req;
                            w1 = w\<lparr>swapCalls := swapCalls w @ [req]\<rparr>
                        in if \<not> success swapRes then w1
                           else
                             (let gs' = gs\<lparr>tokenAmounts_source := tokenAmounts_source gs + sourceAmount,
                                          tokenAmounts_target :=
                                            tokenAmounts_target gs - usdInvestmentPerLevel\<rparr>;
                                  w2 = w1\<lparr>gridStateMap := (gridStateMap w1)(grid_id g \<mapsto> gs')\<rparr>;
                                  w3 = updateGridTokenAmounts e (grid_id g)
                                         (tokenAmounts_source gs') (tokenAmounts_target gs') w2;
                                  w4 = incrementGridTrades e (grid_id g) 1 0 w3
                              in if \<not> objectIdIsValid e (grid_id g) then w4
                                 else w4\<lparr>tradeCollection := tradeCollection w4 @
                                        [\<lparr>gridId = grid_id g, side = BUY,
                                          inputToken = targetTokenSymbol g,
                                          outputToken = sourceTokenSymbol g,
                                          inputTokenId = targetTokenId g,
                                          outputTokenId = sourceTokenId g,
                                          inputAmount = sourceAmount,
                                          outputAmount = usdInvestmentPerLevel,
                                          gridLevel = levelIndex,
                                          transactionHash = signature swapRes,
                                          profit = Undefined\<rparr>]\<rparr>))))"

text \<open>\<open>executeSellTrade\<close>\<close>

definition executeSellTrade :: "env \<Rightarrow> grid \<Rightarrow> int \<Rightarrow> world \<Rightarrow> world" where
  "executeSellTrade e g levelIndex w0 =
     (let w = w0\<lparr>executing := executing w0 @ [(SELL, levelIndex)]\<rparr>
      in case map_of (levels g) levelIndex of
           None \<Rightarrow> w
         | Some levelPrice \<Rightarrow>
             if levelPrice = 0 then w
             else
               (let sourceAmount = quantityInvested g / of_int (gridCount g) / levelPrice;
                    targetAmount = sourceAmount * levelPrice
                in case gridStateMap w (grid_id g) of
                     None \<Rightarrow> w
                   | Some gs \<Rightarrow>
                       (let req = \<lparr>inputMint = sourceTokenId g, outputMint = targetTokenId g,
                                   amount = \<lfloor>sourceAmount * 1000000\<rfloor>, slippageBps = 100\<rparr>;
                            swapRes = quoteAndSwap e (length (swapCalls w)) req;
                            w1 = w\<lparr>swapCalls := swapCalls w @ [req]\<rparr>
                        in if \<not> success swapRes then w1
                           else
                             (let buyPrice = (if levelIndex > 0 then map_of (levels g) (levelIndex - 1)
                                              else Some (lowerLimit g));
                                  sellPrice = levelPrice;
                                  tradeProfit = (case buyPrice of
                                                   None \<Rightarrow> NaN
                                                 | Some bp \<Rightarrow> Profit ((sellPrice - bp) * sourceAmount));
                                  gs' = gs\<lparr>tokenAmounts_source := tokenAmounts_source gs - sourceAmount,
                                          tokenAmounts_target := tokenAmounts_target gs + targetAmount\<rparr>;
                                  w2 = w1\<lparr>gridStateMap := (gridStateMap w1)(grid_id g \<mapsto> gs')\<rparr>;
                                  w3 = updateGridTokenAmounts e (grid_id g)
                                         (tokenAmounts_source gs') (tokenAmounts_target gs') w2;
                                  w4 = incrementGridTrades e (grid_id g) 0 1 w3
                              in if \<not> objectIdIsValid e (grid_id g) then w4
                                 else w4\<lparr>tradeCollection := tradeCollection w4 @
                                        [\<lparr>gridId = grid_id g, side = SELL,
                                          inputToken = sourceTokenSymbol g,
                                          outputToken = targetTokenSymbol g,
                                          inputTokenId = sourceTokenId g,
                                          outputTokenId = targetTokenId g,
                                          inputAmount = sourceAmount,
                                          outputAmount = targetAmount,
                                          gridLevel = levelIndex,
                                          transactionHash = signature swapRes,
                                          profit = tradeProfit\<rparr>]\<rparr>))))"

text \<open>\<open>for (let i = previousGridIndex + 1; i <= newGridIndex; i++) await this.executeSellTrade(grid, i)\<close>\<close>

function sellLoop :: "env \<Rightarrow> grid \<Rightarrow> int \<Rightarrow> int \<Rightarrow> world \<Rightarrow> world" where
  "sellLoop e g i newGridIndex w =
     (if i \<le> newGridIndex then sellLoop e g (i + 1) newGridIndex (executeSellTrade e g i w)
      else w)"
  by pat_completeness auto
termination
  by (relation "measure (\<lambda>(e, g, i, newGridIndex, w). nat (newGridIndex + 1 - i))") auto

declare sellLoop.simps [simp del]

text \<open>\<open>for (let i = previousGridIndex; i > newGridIndex; i--) await this.executeBuyTrade(grid, i)\<close>\<close>

function buyLoop :: "env \<Rightarrow> grid \<Rightarrow> int \<Rightarrow> int \<Rightarrow> world \<Rightarrow> world" where
  "buyLoop e g i newGridIndex w =
     (if i > newGridIndex then buyLoop e g (i - 1) newGridIndex (executeBuyTrade e g i w)
      else w)"
  by pat_completeness auto
termination
  by (relation "measure (\<lambda>(e, g, i, newGridIndex, w). nat (i - newGridIndex))") auto

declare buyLoop.simps [simp del]

text \<open>
  An assignment to a field of the \<open>gridState\<close> object that \<open>processGrid\<close> took from the
  map; the trade functions reach the same object through the map.
\<close>

definition modifyGridState :: "string \<Rightarrow> (gridState \<Rightarrow> gridState) \<Rightarrow> world \<Rightarrow> world" where
  "modifyGridState ident f w =
     (case gridStateMap w ident of
        None \<Rightarrow> w
      | Some gs \<Rightarrow> w\<lparr>gridStateMap := (gridStateMap w)(ident \<mapsto> f gs)\<rparr>)"

text \<open>
  \<open>processGrid\<close>.  \<open>tokenPrices\<close> gives the parsed price of a token id, \<open>None\<close> when
  \<open>tokenPrices[grid.targetTokenId]?.price\<close> is falsy (the early return).
\<close>

definition processGrid :: "env \<Rightarrow> grid \<Rightarrow> (string \<Rightarrow> real option) \<Rightarrow> world \<Rightarrow> world" where
  "processGrid e g tokenPrices w =
     (case tokenPrices (targetTokenId g) of
        None \<Rightarrow> w
      | Some price \<Rightarrow>
          (case gridStateMap w (grid_id g) of
             None \<Rightarrow> w
           | Some gs \<Rightarrow>
               (let w1 = modifyGridState (grid_id g) (\<lambda>s. s\<lparr>lastCheckedPrice := Some price\<rparr>) w;
                    newGridIndex = findGridLevelIndex g price
                in case st_currentGridIndex gs of
                     None \<Rightarrow>
                       updateGridCurrentPrice e (grid_id g) price
                         (modifyGridState (grid_id g)
                            (\<lambda>s. s\<lparr>st_currentGridIndex := Some newGridIndex\<rparr>) w1)
                   | Some previousGridIndex \<Rightarrow>
                       if newGridIndex \<noteq> previousGridIndex then
                         (let w2 = (if newGridIndex > previousGridIndex
                                    then sellLoop e g (previousGridIndex + 1) newGridIndex w1
                                    else if newGridIndex < previousGridIndex
                                    then buyLoop e g previousGridIndex newGridIndex w1
                                    else w1)
                          in updateGridCurrentPrice e (grid_id g) price
                               (modifyGridState (grid_id g)
                                  (\<lambda>s. s\<lparr>st_currentGridIndex := Some newGridIndex\<rparr>) w2))
                       else w1)))"

subsection \<open>The inventory of a grid, in the bot and in the store\<close>

text \<open>
  \<open>tokenAmounts\<close> of the grid state, \<open>sourceTokenAmount\<close> and \<open>targetTokenAmount\<close> of
  the grid document, and the condition that the document holds the amounts of the state.
\<close>

definition memoryInventory :: "world \<Rightarrow> string \<Rightarrow> (real \<times> real) option" where
  "memoryInventory w ident =
     map_option (\<lambda>s. (tokenAmounts_source s, tokenAmounts_target s)) (gridStateMap w ident)"

definition storedInventory :: "world \<Rightarrow> string \<Rightarrow> (real option \<times> real option) option" where
  "storedInventory w ident =
     map_option (\<lambda>d. (sourceTokenAmount d, targetTokenAmount d)) (gridCollection w ident)"

definition inventorySynced :: "world \<Rightarrow> string \<Rightarrow> bool" where
  "inventorySynced w ident =
     (case memoryInventory w ident of
        None \<Rightarrow> False
      | Some (src, tgt) \<Rightarrow> storedInventory w ident = Some (Some src, Some tgt))"

section \<open>A concrete grid\<close>

text \<open>
  The table \<open>[100, 105, 110, 115, 120]\<close> of the end-to-end scenarios, as a SOL/USDC grid of
  createMockGrids.ts with 400 invested, and a bot that tracks it.
\<close>

definition scenarioGrid :: grid where
  "scenarioGrid =
     \<lparr>grid_id = ''67edf9f861d2cfdefceb4068'',
      sourceTokenSymbol = ''SOL'', targetTokenSymbol = ''USDC'',
      sourceTokenId = ''So11111111111111111111111111111111111111112'',
      targetTokenId = ''EPjFWdd5AufqSSqeM2qN1xzybapC8G4wEGGkZwyTDt1v'',
      upperLimit = 120, lowerLimit = 100, gridCount = 4, quantityInvested = 400,
      levels = [(0, 100), (1, 105), (2, 110), (3, 115), (4, 120)],
      totalBuys = 0, totalSells = 0,
      currentPrice = Some 106, currentGridIndex = Some 1,
      sourceTokenAmount = Some 2, targetTokenAmount = Some 200\<rparr>"

definition scenarioState :: "int option \<Rightarrow> gridState" where
  "scenarioState lvl =
     \<lparr>st_currentGridIndex = lvl, lastCheckedPrice = Some 106,
      tokenAmounts_source = 2, tokenAmounts_target = 200\<rparr>"

definition scenarioWorld :: "int option \<Rightarrow> world" where
  "scenarioWorld lvl =
     \<lparr>gridStateMap = [grid_id scenarioGrid \<mapsto> scenarioState lvl],
      gridCollection = [grid_id scenarioGrid \<mapsto> scenarioGrid],
      tradeCollection = [], swapCalls = [], executing = []\<rparr>"

definition scenarioPrices :: "real \<Rightarrow> string \<Rightarrow> real option" where
  "scenarioPrices p = [targetTokenId scenarioGrid \<mapsto> p]"

text \<open>A venue on which every swap succeeds, and one on which exactly the first call fails.\<close>

definition venueAllSucceed :: env where
  "venueAllSucceed =
     \<lparr>quoteAndSwap = (\<lambda>n req. \<lparr>success = True, signature = Some ''sig''\<rparr>),
      objectIdIsValid = (\<lambda>s. length s = 24)\<rparr>"

definition venueFirstFails :: env where
  "venueFirstFails =
     \<lparr>quoteAndSwap = (\<lambda>n req. if n = 0 then \<lparr>success = False, signature = None\<rparr>
                               else \<lparr>success = True, signature = Some ''sig''\<rparr>),
      objectIdIsValid = (\<lambda>s. length s = 24)\<rparr>"

text \<open>A venue on which every swap fails.\<close>

definition venueAllFail :: env where
  "venueAllFail =
     \<lparr>quoteAndSwap = (\<lambda>n req. \<lparr>success = False, signature = None\<rparr>),
      objectIdIsValid = (\<lambda>s. length s = 24)\<rparr>"

text \<open>
  A bot at level 1 of the grid whose document has no token amounts yet (the schema's default
  \<open>null\<close>, which \<open>initialize\<close> reads as 0).
\<close>

definition freshWorld :: world where
  "freshWorld =
     \<lparr>gridStateMap = [grid_id scenarioGrid \<mapsto>
        \<lparr>st_currentGridIndex = Some 1, lastCheckedPrice = Some 106,
         tokenAmounts_source = 0, tokenAmounts_target = 0\<rparr>],
      gridCollection = [grid_id scenarioGrid \<mapsto>
        scenarioGrid\<lparr>sourceTokenAmount := None, targetTokenAmount := None\<rparr>],
      tradeCollection = [], swapCalls = [], executing = []\<rparr>"

text \<open>
  Arithmetic without rounding error, with \<open>Number(x.toFixed(6))\<close> as the nearest multiple
  of \<open>10\<^sup>-\<^sup>6\<close> (the larger one of two nearest; a negative number is rounded as its absolute
  value).  On the limits used below the double operations give the same boundaries.
\<close>

definition toFixed6 :: "real \<Rightarrow> real" where
  "toFixed6 x =
     (if x < 0 then - (of_int \<lfloor>- x * 1000000 + 1 / 2\<rfloor> / 1000000)
      else of_int \<lfloor>x * 1000000 + 1 / 2\<rfloor> / 1000000)"

definition exactArith :: doubleArith where
  "exactArith =
     \<lparr>dsub = (\<lambda>x y. x - y), ddiv = (\<lambda>x y. x / y), dmul = (\<lambda>x y. x * y),
      dadd = (\<lambda>x y. x + y), numberToFixed6 = toFixed6\<rparr>"

text \<open>
  The document that an edit to the limits \<open>0.0000006\<close> and 1 with two levels writes: the
  table is rounded to \<open>0.000001, 0.5, 1\<close>, the limits are kept as given.
\<close>

definition roundedEditGrid :: grid where
  "roundedEditGrid =
     scenarioGrid\<lparr>upperLimit := 1, lowerLimit := 6 / 10000000, gridCount := 2,
       levels := [(0, 1 / 1000000), (1, 1 / 2), (2, 1)],
       currentPrice := Some (8 / 10000000), currentGridIndex := None\<rparr>"

definition roundedEditWorld :: world where
  "roundedEditWorld =
     \<lparr>gridStateMap = Map.empty,
      gridCollection = [grid_id scenarioGrid \<mapsto> roundedEditGrid],
      tradeCollection = [], swapCalls = [], executing = []\<rparr>"

text \<open>
  The stored document of a grid after \<open>updateGridPriceLimits\<close>, and a collection in which
  the last price stored for the grid is \<open>0.0000008\<close>.
\<close>

definition storedAfterEdit :: "world option \<Rightarrow> string \<Rightarrow> grid option" where
  "storedAfterEdit r ident = (case r of None \<Rightarrow> None | Some w \<Rightarrow> gridCollection w ident)"

definition lowPriceWorld :: world where
  "lowPriceWorld =
     \<lparr>gridStateMap = Map.empty,
      gridCollection = [grid_id scenarioGrid \<mapsto> scenarioGrid\<lparr>currentPrice := Some (8 / 10000000)\<rparr>],
      tradeCollection = [], swapCalls = [], executing = []\<rparr>"

section \<open>Facts about level tables\<close>

lemma upto_eq_Cons:
  assumes "k # ks = [a .. n]"
  shows "k = a \<and> a \<le> n \<and> ks = [a + 1 .. n]"
proof (cases "a \<le> n")
  case True
  with assms show ?thesis by (simp add: upto_rec1)
next
  case False
  with assms show ?thesis by simp
qed

lemma scanLevels_below:
  "\<forall>x \<in> set lv. price < snd x \<Longrightarrow> scanLevels lv price = None"
  by (induction lv price rule: scanLevels.induct) auto

lemma scanLevels_above:
  "\<forall>x \<in> set lv. snd x \<le> price \<Longrightarrow> scanLevels lv price = None"
  by (induction lv price rule: scanLevels.induct) auto

lemma table_keys:
  assumes "map fst lv = [a .. n]" and "map_of lv i = Some x"
  shows "a \<le> i \<and> i \<le> n"
proof -
  from assms(2) have "i \<in> fst ` set lv" by (rule map_of_SomeD [THEN imageI, of _ _ _ fst, simplified])
  then have "i \<in> set (map fst lv)" by simp
  with assms(1) show ?thesis by simp
qed

lemma table_strict_mono:
  assumes "map fst lv = [a .. n]" and "sorted_wrt (<) (map snd lv)"
    and "map_of lv j = Some u" and "map_of lv k = Some v" and "j < k"
  shows "u < v"
  using assms
proof (induction lv arbitrary: a)
  case Nil
  then show ?case by simp
next
  case (Cons x lv)
  from Cons.prems(1) have hd: "fst x = a" and tl: "map fst lv = [a + 1 .. n]"
    using upto_eq_Cons [of "fst x" "map fst lv" a n] by simp_all
  show ?case
  proof (cases "j = a")
    case True
    with Cons.prems(3) hd have u: "u = snd x" by simp
    from True Cons.prems(5) hd Cons.prems(4) have "map_of lv k = Some v" by simp
    then have "(k, v) \<in> set lv" by (rule map_of_SomeD)
    then have "v \<in> snd ` set lv" by force
    with Cons.prems(2) u show ?thesis by auto
  next
    case False
    with Cons.prems(3) hd have j: "map_of lv j = Some u" by simp
    from table_keys [OF tl j] have "a + 1 \<le> j" by simp
    with Cons.prems(5) have "k \<noteq> a" by simp
    with Cons.prems(4) hd have k: "map_of lv k = Some v" by simp
    from Cons.prems(2) have "sorted_wrt (<) (map snd lv)" by simp
    from Cons.IH [OF tl this j k Cons.prems(5)] show ?thesis .
  qed
qed

lemma scanLevels_inside:
  assumes "map fst lv = [a .. n]" and "sorted_wrt (<) (map snd lv)"
    and "lv \<noteq> []" and "snd (hd lv) \<le> price" and "price < snd (last lv)"
  shows "\<exists>i. scanLevels lv price = Some i \<and> inLevel lv i price"
  using assms
proof (induction lv arbitrary: a)
  case Nil
  then show ?case by simp
next
  case (Cons x lv)
  from Cons.prems(1) have hd: "fst x = a" and tl: "map fst lv = [a + 1 .. n]"
    using upto_eq_Cons [of "fst x" "map fst lv" a n] by simp_all
  show ?case
  proof (cases lv)
    case Nil
    with Cons.prems(4,5) show ?thesis by simp
  next
    case (Cons y rest)
    from tl Cons have hd2: "fst y = a + 1"
      using upto_eq_Cons [of "fst y" "map fst rest" "a + 1" n] by simp
    show ?thesis
    proof (cases "price < snd y")
      case True
      with Cons.prems(4) Cons hd hd2 show ?thesis
        by (simp add: inLevel_def)
    next
      case False
      have srt: "sorted_wrt (<) (map snd lv)" using Cons.prems(2) by simp
      have "\<exists>i. scanLevels lv price = Some i \<and> inLevel lv i price"
        using Cons.IH [OF tl srt] Cons False Cons.prems(5) by simp
      then obtain i where i: "scanLevels lv price = Some i" "inLevel lv i price" by blast
      from i(2) obtain lo where lo: "map_of lv i = Some lo"
        by (auto simp: inLevel_def split: option.splits)
      from table_keys [OF tl lo] have "a + 1 \<le> i" by simp
      with hd i(2) have "inLevel (x # lv) i price"
        by (auto simp: inLevel_def split: option.splits)
      moreover from False Cons i(1) have "scanLevels (x # lv) price = Some i" by simp
      ultimately show ?thesis by blast
    qed
  qed
qed

lemma inLevel_unique:
  assumes "map fst lv = [a .. n]" and "sorted_wrt (<) (map snd lv)"
    and "inLevel lv i price" and "inLevel lv j price"
  shows "i = j"
proof -
  have less: "False" if "inLevel lv k price" "inLevel lv m price" "k < m" for k m
  proof -
    from that(1) obtain hi where hi: "map_of lv (k + 1) = Some hi" "price < hi"
      by (auto simp: inLevel_def split: option.splits)
    from that(2) obtain lo where lo: "map_of lv m = Some lo" "lo \<le> price"
      by (auto simp: inLevel_def split: option.splits)
    show False
    proof (cases "k + 1 = m")
      case True
      with hi lo show False by simp
    next
      case False
      with that(3) have "k + 1 < m" by simp
      from table_strict_mono [OF assms(1,2) hi(1) lo(1) this] hi(2) lo(2) show False by simp
    qed
  qed
  show ?thesis
  proof (rule ccontr)
    assume "i \<noteq> j"
    then consider "i < j" | "j < i" by linarith
    then show False using less assms(3,4) by cases blast+
  qed
qed

lemma sortedLevels_id:
  assumes "sorted_wrt (<) (map snd lv)"
  shows "sortedLevels lv = lv"
proof -
  from assms have "sorted (map snd lv)"
    by (rule sorted_wrt_mono_rel [rotated]) simp
  then show ?thesis unfolding sortedLevels_def by (rule sort_key_id_if_sorted)
qed

lemma table_ends:
  assumes "map fst lv = [0 .. n]" and "map_of lv 0 = Some lo" and "map_of lv n = Some hi"
  shows "lv \<noteq> [] \<and> snd (hd lv) = lo \<and> snd (last lv) = hi"
proof -
  from assms(2) have ne: "lv \<noteq> []" by auto
  then obtain x rest where lv: "lv = x # rest" by (cases lv) auto
  with assms(1) have "fst x = 0" using upto_eq_Cons [of "fst x" "map fst rest" 0 n] by simp
  with lv assms(2) have first: "snd (hd lv) = lo" by simp
  from ne have "fst (last lv) = last (map fst lv)" by (simp add: last_map)
  also from assms(1) ne have "\<dots> = n"
    using upto_rec2 [of 0 n] by (cases "0 \<le> n") auto
  finally have key: "fst (last lv) = n" .
  have dist: "distinct (map fst lv)" using assms(1) by simp
  from ne have "last lv \<in> set lv" by simp
  then have "(n, snd (last lv)) \<in> set lv" using key by (metis prod.collapse)
  with dist have "map_of lv n = Some (snd (last lv))" by (rule map_of_is_SomeI)
  with assms(3) have "snd (last lv) = hi" by simp
  with ne first show ?thesis by simp
qed

section \<open>What the database calls leave alone\<close>

lemma updateGridTokenAmounts_frame [simp]:
  "executing (updateGridTokenAmounts e ident s t w) = executing w"
  "swapCalls (updateGridTokenAmounts e ident s t w) = swapCalls w"
  "tradeCollection (updateGridTokenAmounts e ident s t w) = tradeCollection w"
  "gridStateMap (updateGridTokenAmounts e ident s t w) = gridStateMap w"
  by (simp_all add: updateGridTokenAmounts_def split: option.splits)

lemma updateGridTokenAmounts_levels [simp]:
  "map_option levels (gridCollection (updateGridTokenAmounts e ident s t w) k) =
   map_option levels (gridCollection w k)"
  by (simp add: updateGridTokenAmounts_def split: option.splits)

lemma incrementGridTrades_frame [simp]:
  "executing (incrementGridTrades e ident b s w) = executing w"
  "swapCalls (incrementGridTrades e ident b s w) = swapCalls w"
  "tradeCollection (incrementGridTrades e ident b s w) = tradeCollection w"
  "gridStateMap (incrementGridTrades e ident b s w) = gridStateMap w"
  by (simp_all add: incrementGridTrades_def split: option.splits)

lemma incrementGridTrades_levels [simp]:
  "map_option levels (gridCollection (incrementGridTrades e ident b s w) k) =
   map_option levels (gridCollection w k)"
  by (simp add: incrementGridTrades_def split: option.splits)

lemma updateGridCurrentPrice_frame [simp]:
  "executing (updateGridCurrentPrice e ident p w) = executing w"
  "swapCalls (updateGridCurrentPrice e ident p w) = swapCalls w"
  "tradeCollection (updateGridCurrentPrice e ident p w) = tradeCollection w"
  "gridStateMap (updateGridCurrentPrice e ident p w) = gridStateMap w"
  by (simp_all add: updateGridCurrentPrice_def split: option.splits)

lemma updateGridCurrentPrice_stored:
  assumes "objectIdIsValid e ident" and "gridCollection w ident = Some doc"
  shows "gridCollection (updateGridCurrentPrice e ident p w) =
         (gridCollection w)(ident \<mapsto> doc\<lparr>currentPrice := Some p,
                                          currentGridIndex := storedLevelIndex (levels doc) p\<rparr>)"
  using assms by (simp add: updateGridCurrentPrice_def)

lemma modifyGridState_frame [simp]:
  "executing (modifyGridState ident f w) = executing w"
  "swapCalls (modifyGridState ident f w) = swapCalls w"
  "tradeCollection (modifyGridState ident f w) = tradeCollection w"
  "gridCollection (modifyGridState ident f w) = gridCollection w"
  by (simp_all add: modifyGridState_def split: option.splits)

lemma modifyGridState_Some:
  "gridStateMap w ident = Some gs \<Longrightarrow>
   gridStateMap (modifyGridState ident f w) = (gridStateMap w)(ident \<mapsto> f gs)"
  by (simp add: modifyGridState_def)

section \<open>One trade\<close>

lemma executeSellTrade_executing [simp]:
  "executing (executeSellTrade e g i w) = executing w @ [(SELL, i)]"
  by (simp add: executeSellTrade_def Let_def split: option.splits)

lemma executeBuyTrade_executing [simp]:
  "executing (executeBuyTrade e g i w) = executing w @ [(BUY, i)]"
  by (simp add: executeBuyTrade_def Let_def split: option.splits)

lemma executeSellTrade_index [simp]:
  "map_option st_currentGridIndex (gridStateMap (executeSellTrade e g i w) k) =
   map_option st_currentGridIndex (gridStateMap w k)"
  by (simp add: executeSellTrade_def Let_def split: option.splits)

lemma executeBuyTrade_index [simp]:
  "map_option st_currentGridIndex (gridStateMap (executeBuyTrade e g i w) k) =
   map_option st_currentGridIndex (gridStateMap w k)"
  by (simp add: executeBuyTrade_def Let_def split: option.splits)

lemma executeSellTrade_levels [simp]:
  "map_option levels (gridCollection (executeSellTrade e g i w) k) =
   map_option levels (gridCollection w k)"
  by (simp add: executeSellTrade_def Let_def split: option.splits)

lemma executeBuyTrade_levels [simp]:
  "map_option levels (gridCollection (executeBuyTrade e g i w) k) =
   map_option levels (gridCollection w k)"
  by (simp add: executeBuyTrade_def Let_def split: option.splits)

section \<open>The two loops\<close>

lemma sellLoop_executing:
  "executing (sellLoop e g i n w) = executing w @ map (Pair SELL) [i .. n]"
proof (induction e g i n w rule: sellLoop.induct)
  case (1 e g i n w)
  show ?case
  proof (cases "i \<le> n")
    case True
    with "1" show ?thesis by (simp add: sellLoop.simps [of e g i] upto_rec1 [of i n])
  next
    case False
    then show ?thesis by (simp add: sellLoop.simps [of e g i])
  qed
qed

lemma buyLoop_executing:
  "executing (buyLoop e g i n w) = executing w @ map (Pair BUY) (rev [n + 1 .. i])"
proof (induction e g i n w rule: buyLoop.induct)
  case (1 e g i n w)
  show ?case
  proof (cases "i > n")
    case True
    then have "[n + 1 .. i] = [n + 1 .. i - 1] @ [i]" by (simp add: upto_rec2)
    with True "1" show ?thesis by (simp add: buyLoop.simps [of e g i])
  next
    case False
    then show ?thesis by (simp add: buyLoop.simps [of e g i])
  qed
qed

lemma sellLoop_index:
  "map_option st_currentGridIndex (gridStateMap (sellLoop e g i n w) k) =
   map_option st_currentGridIndex (gridStateMap w k)"
  by (induction e g i n w rule: sellLoop.induct) (simp add: sellLoop.simps)

lemma buyLoop_index:
  "map_option st_currentGridIndex (gridStateMap (buyLoop e g i n w) k) =
   map_option st_currentGridIndex (gridStateMap w k)"
  by (induction e g i n w rule: buyLoop.induct) (simp add: buyLoop.simps)

lemma sellLoop_levels:
  "map_option levels (gridCollection (sellLoop e g i n w) k) =
   map_option levels (gridCollection w k)"
  by (induction e g i n w rule: sellLoop.induct) (simp add: sellLoop.simps)

lemma buyLoop_levels:
  "map_option levels (gridCollection (buyLoop e g i n w) k) =
   map_option levels (gridCollection w k)"
  by (induction e g i n w rule: buyLoop.induct) (simp add: buyLoop.simps)

section \<open>One tick\<close>

lemma processGrid_tracking:
  assumes "tokenPrices (targetTokenId g) = Some p"
    and "gridStateMap w (grid_id g) = Some gs"
    and "st_currentGridIndex gs = Some prev"
  shows "processGrid e g tokenPrices w =
     (let w1 = modifyGridState (grid_id g) (\<lambda>s. s\<lparr>lastCheckedPrice := Some p\<rparr>) w;
          new = findGridLevelIndex g p
      in if new \<noteq> prev then
           updateGridCurrentPrice e (grid_id g) p
             (modifyGridState (grid_id g) (\<lambda>s. s\<lparr>st_currentGridIndex := Some new\<rparr>)
                (if new > prev then sellLoop e g (prev + 1) new w1
                 else buyLoop e g prev new w1))
         else w1)"
  using assms by (simp add: processGrid_def Let_def)

lemma processGrid_first:
  assumes "tokenPrices (targetTokenId g) = Some p"
    and "gridStateMap w (grid_id g) = Some gs"
    and "st_currentGridIndex gs = None"
  shows "processGrid e g tokenPrices w =
     updateGridCurrentPrice e (grid_id g) p
       (w\<lparr>gridStateMap := (gridStateMap w)(grid_id g \<mapsto>
            gs\<lparr>lastCheckedPrice := Some p,
                st_currentGridIndex := Some (findGridLevelIndex g p)\<rparr>)\<rparr>)"
  using assms by (simp add: processGrid_def Let_def modifyGridState_def)

lemma crossings_executing:
  assumes "tokenPrices (targetTokenId g) = Some p"
    and "gridStateMap w (grid_id g) = Some gs"
    and "st_currentGridIndex gs = Some prev"
  shows "executing (processGrid e g tokenPrices w) =
         executing w @
           (if findGridLevelIndex g p > prev then map (Pair SELL) [prev + 1 .. findGridLevelIndex g p]
            else map (Pair BUY) (rev [findGridLevelIndex g p + 1 .. prev]))"
  by (simp add: processGrid_tracking [where tokenPrices = tokenPrices, OF assms] Let_def sellLoop_executing buyLoop_executing)

lemma modifyGridState_index:
  "map_option st_currentGridIndex (gridStateMap w ident) = Some x \<Longrightarrow>
   map_option st_currentGridIndex
     (gridStateMap (modifyGridState ident (\<lambda>s. s\<lparr>st_currentGridIndex := Some new\<rparr>) w) ident) =
   Some (Some new)"
  by (auto simp: modifyGridState_def)

lemma modifyGridState_price_index [simp]:
  "map_option st_currentGridIndex
     (gridStateMap (modifyGridState ident (\<lambda>s. s\<lparr>lastCheckedPrice := Some p\<rparr>) w) k) =
   map_option st_currentGridIndex (gridStateMap w k)"
  by (auto simp: modifyGridState_def split: option.splits)

lemma tracking_index_after:
  assumes "tokenPrices (targetTokenId g) = Some p"
    and "gridStateMap w (grid_id g) = Some gs"
    and "st_currentGridIndex gs = Some prev"
  shows "map_option st_currentGridIndex (gridStateMap (processGrid e g tokenPrices w) (grid_id g)) =
         Some (Some (findGridLevelIndex g p))"
proof (cases "findGridLevelIndex g p = prev")
  case True
  with assms show ?thesis by (simp add: processGrid_tracking [where tokenPrices = tokenPrices, OF assms] Let_def)
next
  case False
  let ?w1 = "modifyGridState (grid_id g) (\<lambda>s. s\<lparr>lastCheckedPrice := Some p\<rparr>) w"
  let ?w2 = "if findGridLevelIndex g p > prev then sellLoop e g (prev + 1) (findGridLevelIndex g p) ?w1
             else buyLoop e g prev (findGridLevelIndex g p) ?w1"
  have "map_option st_currentGridIndex (gridStateMap ?w1 (grid_id g)) = Some (Some prev)"
    using assms by simp
  moreover have "map_option st_currentGridIndex (gridStateMap ?w2 (grid_id g)) =
                 map_option st_currentGridIndex (gridStateMap ?w1 (grid_id g))"
    by (simp only: sellLoop_index buyLoop_index if_distrib [of "\<lambda>v. map_option st_currentGridIndex (gridStateMap v (grid_id g))"] if_cancel)
  ultimately have "map_option st_currentGridIndex (gridStateMap ?w2 (grid_id g)) = Some (Some prev)"
    by (simp only:)
  from modifyGridState_index [OF this] False show ?thesis
    by (simp add: processGrid_tracking [where tokenPrices = tokenPrices, OF assms] Let_def)
qed

lemma tracking_levels_after:
  "map_option levels (gridCollection
     (if c then sellLoop e g i n w else buyLoop e g j m w) k) =
   map_option levels (gridCollection w k)"
  by (simp add: sellLoop_levels buyLoop_levels)

section \<open>The concrete grid\<close>

lemma scenario_price: "scenarioPrices p (targetTokenId scenarioGrid) = Some p"
  by (simp add: scenarioPrices_def)

lemma scenario_state:
  "gridStateMap (scenarioWorld l) (grid_id scenarioGrid) = Some (scenarioState l)"
  by (simp add: scenarioWorld_def)

lemma scenario_index: "st_currentGridIndex (scenarioState l) = l"
  by (simp add: scenarioState_def)

lemma scenario_doc:
  "gridCollection (scenarioWorld l) (grid_id scenarioGrid) = Some scenarioGrid"
  by (simp add: scenarioWorld_def)

lemma scenario_empty:
  "executing (scenarioWorld l) = []" "swapCalls (scenarioWorld l) = []"
  "tradeCollection (scenarioWorld l) = []"
  by (simp_all add: scenarioWorld_def)

lemma scenario_valid:
  "objectIdIsValid venueAllSucceed (grid_id scenarioGrid)"
  "objectIdIsValid venueFirstFails (grid_id scenarioGrid)"
  by (simp_all add: venueAllSucceed_def venueFirstFails_def scenarioGrid_def)

lemma scenario_levels:
  "levels scenarioGrid = [(0, 100), (1, 105), (2, 110), (3, 115), (4, 120)]"
  "lowerLimit scenarioGrid = 100" "upperLimit scenarioGrid = 120" "gridCount scenarioGrid = 4"
  by (simp_all add: scenarioGrid_def)

lemma upto_small:
  "[0 .. 4] = [0, 1, 2, 3, 4]" "[1 .. 3] = [1, 2, 3]" "[0 .. 2] = [0, 1, 2]"
  "[2 .. 3] = [2, 3]" "[1 .. 4] = [1, 2, 3, 4]" "[0 .. 3] = [0, 1, 2, 3]"
  by (simp_all add: upto.simps)

lemma scenario_find:
  "findGridLevelIndex scenarioGrid 118 = 3"
  "findGridLevelIndex scenarioGrid 101 = 0"
  "findGridLevelIndex scenarioGrid 107 = 1"
  "findGridLevelIndex scenarioGrid 100 = 0"
  by (simp_all add: findGridLevelIndex_def sortedLevels_def scenario_levels)

lemma scenario_wellFormed: "wellFormedGrid scenarioGrid"
  by (simp add: wellFormedGrid_def scenario_levels upto_small)

text \<open>
  Claim C5.  When the located level is above the previous level of a tracked grid, the tick
  announces one SELL crossing for each of the levels \<open>previousLevel + 1 .. newLevel\<close>, in
  ascending order: \<open>newLevel - previousLevel\<close> of them.
\<close>

theorem rise_sells_each_level_ascending:
  assumes "tokenPrices (targetTokenId g) = Some price"
    and "gridStateMap w (grid_id g) = Some gs"
    and "st_currentGridIndex gs = Some previousLevel"
    and "findGridLevelIndex g price = newLevel"
    and "previousLevel < newLevel"
  shows "executing (processGrid e g tokenPrices w) =
           executing w @ map (Pair SELL) [previousLevel + 1 .. newLevel] \<and>
         executing (sellLoop e g (previousLevel + 1) newLevel w) =
           executing w @ map (Pair SELL) [previousLevel + 1 .. newLevel] \<and>
         length [previousLevel + 1 .. newLevel] = nat (newLevel - previousLevel) \<and>
         sorted_wrt (<) [previousLevel + 1 .. newLevel]"
  using assms(4,5)
  by (auto simp: crossings_executing [where tokenPrices = tokenPrices, OF assms(1-3)]
        sellLoop_executing)

text \<open>
  Claim C5 at the concrete grid: from level 1 the price 118 is located at level 3.
\<close>

theorem rise_sells_each_level_ascending_witness:
  "scenarioPrices 118 (targetTokenId scenarioGrid) = Some 118 \<and>
   gridStateMap (scenarioWorld (Some 1)) (grid_id scenarioGrid) = Some (scenarioState (Some 1)) \<and>
   st_currentGridIndex (scenarioState (Some 1)) = Some 1 \<and>
   findGridLevelIndex scenarioGrid 118 = 3 \<and> (1::int) < 3 \<and>
   executing (processGrid venueAllSucceed scenarioGrid (scenarioPrices 118) (scenarioWorld (Some 1))) =
     [(SELL, 2), (SELL, 3)]"
  using rise_sells_each_level_ascending [where tokenPrices = "scenarioPrices 118"
      and g = scenarioGrid and price = 118 and w = "scenarioWorld (Some 1)"
      and gs = "scenarioState (Some 1)" and previousLevel = 1 and newLevel = 3
      and e = venueAllSucceed]
  by (simp add: scenario_price scenario_state scenario_index scenario_find scenario_empty upto_small)

text \<open>
  Claim C2 at the end-to-end scenario 2: from level 3 the price 101 is located at level 0, and
  the tick buys at the levels 3, 2, 1; the levels \<open>[newLevel, previousLevel)\<close> would be
  2, 1, 0.
\<close>

theorem fall_buys_half_open_counterexample:
  "findGridLevelIndex scenarioGrid 101 = 0 \<and>
   executing (processGrid venueAllSucceed scenarioGrid (scenarioPrices 101) (scenarioWorld (Some 3))) =
     [(BUY, 3), (BUY, 2), (BUY, 1)] \<and>
   executing (processGrid venueAllSucceed scenarioGrid (scenarioPrices 101) (scenarioWorld (Some 3))) \<noteq>
     map (Pair BUY) (rev [0 .. 3 - 1])"
  by (simp add: crossings_executing [where tokenPrices = "scenarioPrices 101"
          and gs = "scenarioState (Some 3)" and prev = 3 and p = 101]
        scenario_price scenario_state scenario_index scenario_find scenario_empty upto_small)

text \<open>
  Claim C2, as the code has it.  When the located level is below the previous level of a
  tracked grid, the tick announces one BUY crossing for each level of the interval
  \<open>(newLevel, previousLevel]\<close>, that is \<open>previousLevel\<close> down to \<open>newLevel + 1\<close>, in
  descending order: \<open>previousLevel - newLevel\<close> of them.
\<close>

theorem fall_buys_each_level_descending:
  assumes "tokenPrices (targetTokenId g) = Some price"
    and "gridStateMap w (grid_id g) = Some gs"
    and "st_currentGridIndex gs = Some previousLevel"
    and "findGridLevelIndex g price = newLevel"
    and "newLevel < previousLevel"
  shows "executing (processGrid e g tokenPrices w) =
           executing w @ map (Pair BUY) (rev [newLevel + 1 .. previousLevel]) \<and>
         executing (buyLoop e g previousLevel newLevel w) =
           executing w @ map (Pair BUY) (rev [newLevel + 1 .. previousLevel]) \<and>
         length (rev [newLevel + 1 .. previousLevel]) = nat (previousLevel - newLevel) \<and>
         sorted_wrt (>) (rev [newLevel + 1 .. previousLevel])"
  using assms(4,5)
  by (auto simp: crossings_executing [where tokenPrices = tokenPrices, OF assms(1-3)]
        buyLoop_executing sorted_wrt_rev)

text \<open>
  Claim C2 at the concrete grid: from level 3 the price 101 is located at level 0.
\<close>

theorem fall_buys_each_level_descending_witness:
  "scenarioPrices 101 (targetTokenId scenarioGrid) = Some 101 \<and>
   gridStateMap (scenarioWorld (Some 3)) (grid_id scenarioGrid) = Some (scenarioState (Some 3)) \<and>
   st_currentGridIndex (scenarioState (Some 3)) = Some 3 \<and>
   findGridLevelIndex scenarioGrid 101 = 0 \<and> (0::int) < 3 \<and>
   executing (processGrid venueAllSucceed scenarioGrid (scenarioPrices 101) (scenarioWorld (Some 3))) =
     [(BUY, 3), (BUY, 2), (BUY, 1)]"
  using fall_buys_each_level_descending [where tokenPrices = "scenarioPrices 101"
      and g = scenarioGrid and price = 101 and w = "scenarioWorld (Some 3)"
      and gs = "scenarioState (Some 3)" and previousLevel = 3 and newLevel = 0
      and e = venueAllSucceed]
  by (simp add: scenario_price scenario_state scenario_index scenario_find scenario_empty upto_small)

text \<open>
  Claim C1 on a venue whose first swap fails: from level 0 the price 118 is located at level
  3.  The SELL of level 1 fails, the SELLs of levels 2 and 3 are still attempted and
  recorded, the current level becomes 3, and a second tick at the same price attempts
  nothing.
\<close>

theorem failed_crossing_stops_tick_counterexample:
  "map gridLevel (tradeCollection
     (processGrid venueFirstFails scenarioGrid (scenarioPrices 118) (scenarioWorld (Some 0)))) = [2, 3] \<and>
   executing (processGrid venueFirstFails scenarioGrid (scenarioPrices 118) (scenarioWorld (Some 0))) =
     [(SELL, 1), (SELL, 2), (SELL, 3)] \<and>
   map_option st_currentGridIndex (gridStateMap
     (processGrid venueFirstFails scenarioGrid (scenarioPrices 118) (scenarioWorld (Some 0)))
     (grid_id scenarioGrid)) = Some (Some 3) \<and>
   executing (processGrid venueFirstFails scenarioGrid (scenarioPrices 118)
     (processGrid venueFirstFails scenarioGrid (scenarioPrices 118) (scenarioWorld (Some 0)))) =
     [(SELL, 1), (SELL, 2), (SELL, 3)]"
  by code_simp

text \<open>
  Claim C1, as the code has it.  Whatever the venue answers to each swap, a tick on a
  tracked grid announces every crossing of the resolved sequence, in order, and then sets
  the current level to the located level; a following tick at the same price, on any venue,
  announces nothing more.  A crossing whose swap failed is passed over, not retried.
\<close>

theorem failed_crossing_is_passed_over:
  assumes "tokenPrices (targetTokenId g) = Some price"
    and "gridStateMap w (grid_id g) = Some gs"
    and "st_currentGridIndex gs = Some previousLevel"
  shows "executing (processGrid e g tokenPrices w) =
           executing w @
             (if findGridLevelIndex g price > previousLevel
              then map (Pair SELL) [previousLevel + 1 .. findGridLevelIndex g price]
              else map (Pair BUY) (rev [findGridLevelIndex g price + 1 .. previousLevel])) \<and>
         map_option st_currentGridIndex (gridStateMap (processGrid e g tokenPrices w) (grid_id g)) =
           Some (Some (findGridLevelIndex g price)) \<and>
         executing (processGrid e' g tokenPrices (processGrid e g tokenPrices w)) =
           executing (processGrid e g tokenPrices w)"
proof -
  let ?w' = "processGrid e g tokenPrices w"
  have idx: "map_option st_currentGridIndex (gridStateMap ?w' (grid_id g)) =
             Some (Some (findGridLevelIndex g price))"
    by (rule tracking_index_after [where tokenPrices = tokenPrices, OF assms])
  then obtain gs' where gs': "gridStateMap ?w' (grid_id g) = Some gs'"
    "st_currentGridIndex gs' = Some (findGridLevelIndex g price)"
    by auto
  have "executing (processGrid e' g tokenPrices ?w') = executing ?w'"
    by (simp add: crossings_executing [where tokenPrices = tokenPrices, OF assms(1) gs'])
  with idx show ?thesis
    by (simp add: crossings_executing [where tokenPrices = tokenPrices, OF assms])
qed

text \<open>
  Claim C1 at the concrete grid, on the venue whose first swap fails, then on the one that accepts every swap.
\<close>

theorem failed_crossing_is_passed_over_witness:
  "scenarioPrices 118 (targetTokenId scenarioGrid) = Some 118 \<and>
   gridStateMap (scenarioWorld (Some 0)) (grid_id scenarioGrid) = Some (scenarioState (Some 0)) \<and>
   st_currentGridIndex (scenarioState (Some 0)) = Some 0 \<and>
   executing (processGrid venueFirstFails scenarioGrid (scenarioPrices 118) (scenarioWorld (Some 0))) =
     [(SELL, 1), (SELL, 2), (SELL, 3)] \<and>
   map_option st_currentGridIndex (gridStateMap
     (processGrid venueFirstFails scenarioGrid (scenarioPrices 118) (scenarioWorld (Some 0)))
     (grid_id scenarioGrid)) = Some (Some 3) \<and>
   executing (processGrid venueAllSucceed scenarioGrid (scenarioPrices 118)
     (processGrid venueFirstFails scenarioGrid (scenarioPrices 118) (scenarioWorld (Some 0)))) =
     [(SELL, 1), (SELL, 2), (SELL, 3)]"
  using failed_crossing_is_passed_over [where tokenPrices = "scenarioPrices 118"
      and g = scenarioGrid and price = 118 and w = "scenarioWorld (Some 0)"
      and gs = "scenarioState (Some 0)" and previousLevel = 0 and e = venueFirstFails
      and e' = venueAllSucceed]
  by (simp add: scenario_price scenario_state scenario_index scenario_find scenario_empty upto_small)



section \<open>Well-formed grids\<close>

lemma table_lookup:
  assumes "map fst lv = [a .. n]" and "a \<le> i" and "i \<le> n"
  shows "\<exists>x. map_of lv i = Some x"
proof -
  from assms have "i \<in> set (map fst lv)" by simp
  then have "i \<in> fst ` set lv" by simp
  then have "map_of lv i \<noteq> None" by (simp add: map_of_eq_None_iff)
  then show ?thesis by auto
qed

lemma wf_count_nonneg:
  assumes "wellFormedGrid g"
  shows "0 \<le> gridCount g"
proof -
  from assms have "map fst (levels g) = [0 .. gridCount g]"
    and "map_of (levels g) 0 = Some (lowerLimit g)"
    by (simp_all add: wellFormedGrid_def)
  from table_keys [OF this] show ?thesis by simp
qed

lemma wf_limits:
  assumes "wellFormedGrid g"
  shows "(gridCount g = 0 \<longrightarrow> lowerLimit g = upperLimit g) \<and>
         (gridCount g \<noteq> 0 \<longrightarrow> lowerLimit g < upperLimit g)"
proof -
  from assms have keys: "map fst (levels g) = [0 .. gridCount g]"
    and srt: "sorted_wrt (<) (map snd (levels g))"
    and lo: "map_of (levels g) 0 = Some (lowerLimit g)"
    and hi: "map_of (levels g) (gridCount g) = Some (upperLimit g)"
    by (simp_all add: wellFormedGrid_def)
  show ?thesis
  proof (cases "gridCount g = 0")
    case True
    with lo hi show ?thesis by simp
  next
    case False
    with wf_count_nonneg [OF assms] have "0 < gridCount g" by simp
    from table_strict_mono [OF keys srt lo hi this] False show ?thesis by simp
  qed
qed

lemma wf_bounds:
  assumes "wellFormedGrid g" and "x \<in> set (levels g)"
  shows "lowerLimit g \<le> snd x \<and> snd x \<le> upperLimit g"
proof -
  from assms(1) have keys: "map fst (levels g) = [0 .. gridCount g]"
    and srt: "sorted_wrt (<) (map snd (levels g))"
    and lo: "map_of (levels g) 0 = Some (lowerLimit g)"
    and hi: "map_of (levels g) (gridCount g) = Some (upperLimit g)"
    by (simp_all add: wellFormedGrid_def)
  have "distinct (map fst (levels g))" using keys by simp
  moreover from assms(2) have "(fst x, snd x) \<in> set (levels g)" by simp
  ultimately have x: "map_of (levels g) (fst x) = Some (snd x)" by (rule map_of_is_SomeI)
  from table_keys [OF keys x] have rng: "0 \<le> fst x" "fst x \<le> gridCount g" by simp_all
  have "lowerLimit g \<le> snd x"
  proof (cases "fst x = 0")
    case True
    with x lo show ?thesis by simp
  next
    case False
    with rng have "0 < fst x" by simp
    from table_strict_mono [OF keys srt lo x this] show ?thesis by simp
  qed
  moreover have "snd x \<le> upperLimit g"
  proof (cases "fst x = gridCount g")
    case True
    with x hi show ?thesis by simp
  next
    case False
    with rng have "fst x < gridCount g" by simp
    from table_strict_mono [OF keys srt x hi this] show ?thesis by simp
  qed
  ultimately show ?thesis by simp
qed

lemma wf_inside:
  assumes "wellFormedGrid g" and "lowerLimit g \<le> price" and "price < upperLimit g"
  shows "\<exists>i. scanLevels (sortedLevels (levels g)) price = Some i \<and> inLevel (levels g) i price"
proof -
  from assms(1) have keys: "map fst (levels g) = [0 .. gridCount g]"
    and srt: "sorted_wrt (<) (map snd (levels g))"
    and lo: "map_of (levels g) 0 = Some (lowerLimit g)"
    and hi: "map_of (levels g) (gridCount g) = Some (upperLimit g)"
    by (simp_all add: wellFormedGrid_def)
  from table_ends [OF keys lo hi] assms(2,3)
  have "levels g \<noteq> []" "snd (hd (levels g)) \<le> price" "price < snd (last (levels g))"
    by simp_all
  from scanLevels_inside [OF keys srt this] show ?thesis
    by (simp add: sortedLevels_id [OF srt])
qed

lemma wf_unique:
  assumes "wellFormedGrid g" and "inLevel (levels g) i price" and "inLevel (levels g) j price"
  shows "i = j"
proof -
  from assms(1) have keys: "map fst (levels g) = [0 .. gridCount g]"
    and srt: "sorted_wrt (<) (map snd (levels g))"
    by (simp_all add: wellFormedGrid_def)
  from inLevel_unique [OF keys srt assms(2,3)] show ?thesis .
qed

lemma wf_boundary_inLevel:
  assumes "wellFormedGrid g" and "map_of (levels g) i = Some b" and "i < gridCount g"
  shows "inLevel (levels g) i b"
proof -
  from assms(1) have keys: "map fst (levels g) = [0 .. gridCount g]"
    and srt: "sorted_wrt (<) (map snd (levels g))"
    by (simp_all add: wellFormedGrid_def)
  from table_keys [OF keys assms(2)] have "0 \<le> i" by simp
  with assms(3) have "0 \<le> i + 1" "i + 1 \<le> gridCount g" by simp_all
  from table_lookup [OF keys this] obtain c where c: "map_of (levels g) (i + 1) = Some c" by blast
  have "i < i + 1" by simp
  from table_strict_mono [OF keys srt assms(2) c this] have "b < c" .
  with assms(2) c show ?thesis by (simp add: inLevel_def)
qed

lemma wf_lowest_inLevel:
  assumes "wellFormedGrid g" and "0 < gridCount g"
  shows "inLevel (levels g) 0 (lowerLimit g)"
proof -
  from assms(1) have "map_of (levels g) 0 = Some (lowerLimit g)"
    by (simp add: wellFormedGrid_def)
  from wf_boundary_inLevel [OF assms(1) this assms(2)] show ?thesis .
qed

lemma wf_find_inside:
  assumes "wellFormedGrid g" and "lowerLimit g < price" and "price < upperLimit g"
  shows "inLevel (levels g) (findGridLevelIndex g price) price"
proof -
  from wf_inside [OF assms(1) _ assms(3)] assms(2)
  obtain i where "scanLevels (sortedLevels (levels g)) price = Some i" "inLevel (levels g) i price"
    by auto
  with assms(2,3) show ?thesis by (simp add: findGridLevelIndex_def)
qed

lemma wf_find_low:
  assumes "wellFormedGrid g" and "price \<le> lowerLimit g"
  shows "findGridLevelIndex g price = 0"
proof (cases "price \<ge> upperLimit g")
  case True
  with assms(2) wf_limits [OF assms(1)] have "gridCount g = 0" by (cases "gridCount g = 0") auto
  with True show ?thesis by (simp add: findGridLevelIndex_def)
next
  case False
  with assms(2) show ?thesis by (simp add: findGridLevelIndex_def)
qed

text \<open>
  Claim C3 on a strictly increasing table whose ends are not the limits.  The edit of the
  limits to \<open>0.0000006\<close> and 1 with two levels writes the document \<open>roundedEditGrid\<close>:
  its table \<open>0.000001, 0.5, 1\<close> has the keys 0, 1, 2 and increases strictly.  The price
  \<open>0.0000008\<close> is below the lowest boundary, yet above the lower limit, and
  \<open>findGridLevelIndex\<close> returns the fallback level 1 for it, not 0.
\<close>

theorem locate_on_rounded_table_counterexample:
  "storedAfterEdit (updateGridPriceLimits exactArith venueAllSucceed (grid_id scenarioGrid) 1
     (6 / 10000000) (Some 2) lowPriceWorld) (grid_id scenarioGrid) = Some roundedEditGrid \<and>
   map fst (levels roundedEditGrid) = [0 .. gridCount roundedEditGrid] \<and>
   sorted_wrt (<) (map snd (levels roundedEditGrid)) \<and>
   map_of (levels roundedEditGrid) 0 = Some (1 / 1000000) \<and>
   (8 / 10000000 :: real) \<le> 1 / 1000000 \<and>
   findGridLevelIndex roundedEditGrid (8 / 10000000) = 1"
  by code_simp

text \<open>
  Claim C3, as the code has it.  On a grid whose table has the keys \<open>0 .. gridCount\<close>,
  increases strictly and has the two limits as its first and last boundary,
  \<open>findGridLevelIndex\<close> returns 0 for a price at or below the lowest boundary,
  \<open>gridCount\<close> for a price at or above the highest one, and otherwise the one level \<open>i\<close>
  with \<open>levels[i] \<le> price < levels[i + 1]\<close>; a price equal to a boundary is located at
  that boundary's own level.
\<close>

theorem locate_returns_the_level_of_the_price:
  assumes "wellFormedGrid g"
  shows "(price \<le> lowerLimit g \<longrightarrow> findGridLevelIndex g price = 0) \<and>
         (price \<ge> upperLimit g \<longrightarrow> findGridLevelIndex g price = gridCount g) \<and>
         (lowerLimit g < price \<and> price < upperLimit g \<longrightarrow>
            inLevel (levels g) (findGridLevelIndex g price) price \<and>
            (\<forall>j. inLevel (levels g) j price \<longrightarrow> j = findGridLevelIndex g price)) \<and>
         (\<forall>i boundary. map_of (levels g) i = Some boundary \<longrightarrow>
            findGridLevelIndex g boundary = i)"
proof (intro conjI impI allI)
  assume "price \<le> lowerLimit g"
  then show "findGridLevelIndex g price = 0" by (rule wf_find_low [OF assms])
next
  assume "price \<ge> upperLimit g"
  then show "findGridLevelIndex g price = gridCount g" by (simp add: findGridLevelIndex_def)
next
  assume "lowerLimit g < price \<and> price < upperLimit g"
  then show "inLevel (levels g) (findGridLevelIndex g price) price"
    using wf_find_inside [OF assms] by simp
next
  fix j
  assume "lowerLimit g < price \<and> price < upperLimit g" and j: "inLevel (levels g) j price"
  then have "inLevel (levels g) (findGridLevelIndex g price) price"
    using wf_find_inside [OF assms] by simp
  from wf_unique [OF assms j this] show "j = findGridLevelIndex g price" .
next
  fix i boundary
  assume b: "map_of (levels g) i = Some boundary"
  from assms have keys: "map fst (levels g) = [0 .. gridCount g]"
    and hi: "map_of (levels g) (gridCount g) = Some (upperLimit g)"
    by (simp_all add: wellFormedGrid_def)
  from table_keys [OF keys b] have rng: "0 \<le> i" "i \<le> gridCount g" by simp_all
  have bnd: "lowerLimit g \<le> boundary" "boundary \<le> upperLimit g"
    using wf_bounds [OF assms map_of_SomeD [OF b]] by simp_all
  show "findGridLevelIndex g boundary = i"
  proof (cases "i = gridCount g")
    case True
    with b hi show ?thesis by (simp add: findGridLevelIndex_def)
  next
    case False
    with rng have less: "i < gridCount g" by simp
    from wf_boundary_inLevel [OF assms b less] have here: "inLevel (levels g) i boundary" .
    show ?thesis
    proof (cases "boundary = lowerLimit g")
      case True
      from less rng have "gridCount g \<noteq> 0" by simp
      with wf_limits [OF assms] have "lowerLimit g < upperLimit g" by simp
      from less rng have "0 < gridCount g" by simp
      from wf_lowest_inLevel [OF assms this]
      have "inLevel (levels g) 0 (lowerLimit g)" .
      with here True have "i = 0" using wf_unique [OF assms] by blast
      with True show ?thesis using wf_find_low [OF assms, of boundary] by simp
    next
      case False
      with bnd have lo: "lowerLimit g < boundary" by simp
      from here obtain c where c: "map_of (levels g) (i + 1) = Some c" "boundary < c"
        by (auto simp: inLevel_def split: option.splits)
      from wf_bounds [OF assms map_of_SomeD [OF c(1)]] c(2)
      have "boundary < upperLimit g" by simp
      from wf_find_inside [OF assms lo this] here show ?thesis
        using wf_unique [OF assms] by blast
    qed
  qed
qed

text \<open>
  Claim C3 at the concrete grid, for the prices 100, 120, 112 and the boundary 110.
\<close>

theorem locate_returns_the_level_of_the_price_witness:
  "wellFormedGrid scenarioGrid \<and>
   findGridLevelIndex scenarioGrid 100 = 0 \<and>
   findGridLevelIndex scenarioGrid 120 = gridCount scenarioGrid \<and>
   lowerLimit scenarioGrid < 112 \<and> 112 < upperLimit scenarioGrid \<and>
   inLevel (levels scenarioGrid) (findGridLevelIndex scenarioGrid 112) 112 \<and>
   inLevel (levels scenarioGrid) 2 112 \<and>
   findGridLevelIndex scenarioGrid 112 = 2 \<and>
   map_of (levels scenarioGrid) 2 = Some 110 \<and>
   findGridLevelIndex scenarioGrid 110 = 2"
proof -
  have two: "inLevel (levels scenarioGrid) 2 112" "map_of (levels scenarioGrid) 2 = Some 110"
    by (simp_all add: inLevel_def scenario_levels)
  from locate_returns_the_level_of_the_price [OF scenario_wellFormed, of 112] two
  have "inLevel (levels scenarioGrid) (findGridLevelIndex scenarioGrid 112) 112"
    "findGridLevelIndex scenarioGrid 112 = 2" "findGridLevelIndex scenarioGrid 110 = 2"
    by (simp_all add: scenario_levels)
  with two locate_returns_the_level_of_the_price [OF scenario_wellFormed, of 100]
    locate_returns_the_level_of_the_price [OF scenario_wellFormed, of 120]
  show ?thesis
    by (simp add: scenario_wellFormed scenario_levels)
qed

text \<open>
  Claim C10 at the lowest boundary, and on a table whose ends are not the limits.  For the
  price 100 on the table \<open>[100, .., 120]\<close> the stored index is 0, as is the located level.
  On \<open>roundedEditGrid\<close> (limits \<open>0.0000006\<close> and 1, table \<open>0.000001, 0.5, 1\<close>) the price
  \<open>0.0000008\<close> is strictly below the lowest boundary: the stored index is \<open>null\<close>, and
  the located level is 1, neither 0 nor \<open>gridCount = 2\<close>.
\<close>

theorem stored_index_null_at_lowest_boundary_counterexample:
  "100 \<le> lowerLimit scenarioGrid \<and>
   findGridLevelIndex scenarioGrid 100 = 0 \<and>
   map_option currentGridIndex (gridCollection
     (updateGridCurrentPrice venueAllSucceed (grid_id scenarioGrid) 100 (scenarioWorld (Some 1)))
     (grid_id scenarioGrid)) = Some (Some 0) \<and>
   map_of (levels roundedEditGrid) 0 = Some (1 / 1000000) \<and>
   (8 / 10000000 :: real) < 1 / 1000000 \<and>
   map_option currentGridIndex (gridCollection
     (updateGridCurrentPrice venueAllSucceed (grid_id scenarioGrid) (8 / 10000000) roundedEditWorld)
     (grid_id scenarioGrid)) = Some None \<and>
   findGridLevelIndex roundedEditGrid (8 / 10000000) = 1 \<and>
   gridCount roundedEditGrid = 2"
  by code_simp

text \<open>
  Claim C10, as the code has it.  On a grid whose table has the keys \<open>0 .. gridCount\<close>,
  increases strictly and has the two limits as its first and last boundary, and whose stored
  level table is the one the bot holds, \<open>updateGridCurrentPrice\<close> stores the level that
  \<open>findGridLevelIndex\<close> returns exactly for the prices with
  \<open>lowerLimit \<le> price < upperLimit\<close>; for a price strictly below the lowest boundary, or at
  or above the highest, it stores \<open>null\<close> while \<open>findGridLevelIndex\<close> returns 0 or
  \<open>gridCount\<close>.
\<close>

theorem stored_index_differs_outside_range:
  assumes "wellFormedGrid g"
    and "objectIdIsValid e ident"
    and "gridCollection w ident = Some doc"
    and "levels doc = levels g"
  shows "map_option currentGridIndex
           (gridCollection (updateGridCurrentPrice e ident price w) ident) =
           Some (if lowerLimit g \<le> price \<and> price < upperLimit g
                 then Some (findGridLevelIndex g price) else None) \<and>
         (price < lowerLimit g \<longrightarrow> findGridLevelIndex g price = 0) \<and>
         (upperLimit g \<le> price \<longrightarrow> findGridLevelIndex g price = gridCount g) \<and>
         (map_option currentGridIndex
            (gridCollection (updateGridCurrentPrice e ident price w) ident) =
            Some (Some (findGridLevelIndex g price))) =
           (lowerLimit g \<le> price \<and> price < upperLimit g) \<and>
         map_of (levels g) 0 = Some (lowerLimit g) \<and>
         map_of (levels g) (gridCount g) = Some (upperLimit g)"
proof -
  have stored: "map_option currentGridIndex
      (gridCollection (updateGridCurrentPrice e ident price w) ident) =
      Some (scanLevels (sortedLevels (levels g)) price)"
    by (simp add: updateGridCurrentPrice_stored [OF assms(2,3)] storedLevelIndex_def assms(4))
  from assms(1) have srt: "sorted_wrt (<) (map snd (levels g))"
    by (simp add: wellFormedGrid_def)
  have scan: "scanLevels (sortedLevels (levels g)) price =
      (if lowerLimit g \<le> price \<and> price < upperLimit g
       then Some (findGridLevelIndex g price) else None)"
  proof (cases "lowerLimit g \<le> price \<and> price < upperLimit g")
    case True
    from wf_inside [OF assms(1)] True
    obtain i where i: "scanLevels (sortedLevels (levels g)) price = Some i"
      "inLevel (levels g) i price"
      by blast
    show ?thesis
    proof (cases "price = lowerLimit g")
      case eq: True
      with True wf_limits [OF assms(1)] have "gridCount g \<noteq> 0" by auto
      with wf_count_nonneg [OF assms(1)] have "0 < gridCount g" by simp
      from wf_lowest_inLevel [OF assms(1) this]
      have "inLevel (levels g) 0 (lowerLimit g)" .
      with i(2) eq have "i = 0" using wf_unique [OF assms(1)] by blast
      with i(1) True eq wf_find_low [OF assms(1), of price] show ?thesis by simp
    next
      case False
      with True i(1) show ?thesis by (simp add: findGridLevelIndex_def)
    qed
  next
    case False
    then consider "price < lowerLimit g" | "upperLimit g \<le> price" by linarith
    then have "scanLevels (levels g) price = None"
    proof cases
      case 1
      then have "\<forall>x \<in> set (levels g). price < snd x"
        using wf_bounds [OF assms(1)] by fastforce
      then show ?thesis by (rule scanLevels_below)
    next
      case 2
      then have "\<forall>x \<in> set (levels g). snd x \<le> price"
        using wf_bounds [OF assms(1)] by fastforce
      then show ?thesis by (rule scanLevels_above)
    qed
    with False show ?thesis by (simp add: sortedLevels_id [OF srt])
  qed
  from assms(1) have ends: "map_of (levels g) 0 = Some (lowerLimit g)"
    "map_of (levels g) (gridCount g) = Some (upperLimit g)"
    by (simp_all add: wellFormedGrid_def)
  show ?thesis
    using wf_find_low [OF assms(1), of price]
    by (simp add: stored scan findGridLevelIndex_def ends)
qed

text \<open>
  Claim C10 at the concrete grid, for the prices 99, 120 and 118.
\<close>

theorem stored_index_differs_outside_range_witness:
  "wellFormedGrid scenarioGrid \<and>
   objectIdIsValid venueAllSucceed (grid_id scenarioGrid) \<and>
   gridCollection (scenarioWorld (Some 1)) (grid_id scenarioGrid) = Some scenarioGrid \<and>
   levels scenarioGrid = levels scenarioGrid \<and>
   map_option currentGridIndex (gridCollection
     (updateGridCurrentPrice venueAllSucceed (grid_id scenarioGrid) 99 (scenarioWorld (Some 1)))
     (grid_id scenarioGrid)) = Some None \<and>
   99 < lowerLimit scenarioGrid \<and> findGridLevelIndex scenarioGrid 99 = 0 \<and>
   map_option currentGridIndex (gridCollection
     (updateGridCurrentPrice venueAllSucceed (grid_id scenarioGrid) 120 (scenarioWorld (Some 1)))
     (grid_id scenarioGrid)) = Some None \<and>
   upperLimit scenarioGrid \<le> 120 \<and>
   findGridLevelIndex scenarioGrid 120 = gridCount scenarioGrid \<and>
   map_option currentGridIndex (gridCollection
     (updateGridCurrentPrice venueAllSucceed (grid_id scenarioGrid) 118 (scenarioWorld (Some 1)))
     (grid_id scenarioGrid)) = Some (Some 3)"
  using stored_index_differs_outside_range [OF scenario_wellFormed scenario_valid(1)
      scenario_doc [of "Some 1"] refl, of 99]
    stored_index_differs_outside_range [OF scenario_wellFormed scenario_valid(1)
      scenario_doc [of "Some 1"] refl, of 120]
    stored_index_differs_outside_range [OF scenario_wellFormed scenario_valid(1)
      scenario_doc [of "Some 1"] refl, of 118]
  by (simp add: scenario_wellFormed scenario_valid scenario_doc scenario_levels scenario_find)

section \<open>A trade that goes through\<close>

lemma executeSellTrade_recorded:
  assumes "map_of (levels g) levelIndex = Some levelPrice" and "levelPrice \<noteq> 0"
    and "gridStateMap w (grid_id g) = Some gs"
    and "success (quoteAndSwap e (length (swapCalls w))
           \<lparr>inputMint = sourceTokenId g, outputMint = targetTokenId g,
            amount = \<lfloor>quantityInvested g / of_int (gridCount g) / levelPrice * 1000000\<rfloor>,
            slippageBps = 100\<rparr>)"
    and "objectIdIsValid e (grid_id g)"
  shows "\<exists>row. tradeCollection (executeSellTrade e g levelIndex w) = tradeCollection w @ [row] \<and>
           side row = SELL \<and> gridLevel row = levelIndex \<and>
           inputAmount row = quantityInvested g / of_int (gridCount g) / levelPrice \<and>
           profit row =
             (case (if levelIndex > 0 then map_of (levels g) (levelIndex - 1)
                    else Some (lowerLimit g)) of
                None \<Rightarrow> NaN
              | Some bp \<Rightarrow> Profit ((levelPrice - bp) * inputAmount row))"
  using assms by (auto simp: executeSellTrade_def Let_def split: option.splits)

lemma executeBuyTrade_rows:
  "tradeCollection (executeBuyTrade e g levelIndex w) = tradeCollection w \<or>
   (\<exists>row. tradeCollection (executeBuyTrade e g levelIndex w) = tradeCollection w @ [row] \<and>
      side row = BUY \<and> gridLevel row = levelIndex \<and> profit row = Undefined)"
  by (simp add: executeBuyTrade_def Let_def split: option.splits)

lemma executeBuyTrade_recorded:
  assumes "map_of (levels g) levelIndex = Some levelPrice" and "levelPrice \<noteq> 0"
    and "gridStateMap w (grid_id g) = Some gs"
    and "success (quoteAndSwap e (length (swapCalls w))
           \<lparr>inputMint = sourceTokenId g, outputMint = targetTokenId g,
            amount = \<lfloor>quantityInvested g / of_int (gridCount g) * 1000000\<rfloor>,
            slippageBps = 100\<rparr>)"
    and "objectIdIsValid e (grid_id g)"
  shows "\<exists>row. tradeCollection (executeBuyTrade e g levelIndex w) = tradeCollection w @ [row] \<and>
           side row = BUY \<and> gridLevel row = levelIndex \<and> profit row = Undefined"
  using assms by (auto simp: executeBuyTrade_def Let_def split: option.splits)

lemma venueAllSucceed_success: "success (quoteAndSwap venueAllSucceed n req)"
  by (simp add: venueAllSucceed_def)

text \<open>
  Claim C7.  The row recorded for a SELL at level \<open>L\<close> that went through has the input
  amount \<open>quantityInvested / gridCount / sellPrice\<close> and the profit
  \<open>(sellPrice - referenceBuyPrice) * inputAmount\<close>, where the reference price is the boundary
  price of level \<open>L - 1\<close> when \<open>L > 0\<close> and the lower limit otherwise.  A BUY that
  went through records one row, whose profit is undefined; any BUY records either no row or
  one row whose profit is undefined.
\<close>

theorem sell_profit_against_level_below:
  assumes "map_of (levels g) levelIndex = Some sellPrice" and "sellPrice \<noteq> 0"
    and "gridStateMap w (grid_id g) = Some gs"
    and "success (quoteAndSwap e (length (swapCalls w))
           \<lparr>inputMint = sourceTokenId g, outputMint = targetTokenId g,
            amount = \<lfloor>quantityInvested g / of_int (gridCount g) / sellPrice * 1000000\<rfloor>,
            slippageBps = 100\<rparr>)"
    and "objectIdIsValid e (grid_id g)"
    and "gridCount g \<noteq> 0"
    and "if levelIndex > 0 then map_of (levels g) (levelIndex - 1) = Some referenceBuyPrice
         else referenceBuyPrice = lowerLimit g"
    and "map_of (levels g') buyLevel = Some buyPrice" and "buyPrice \<noteq> 0"
    and "gridStateMap w' (grid_id g') = Some gs'"
    and "success (quoteAndSwap e' (length (swapCalls w'))
           \<lparr>inputMint = sourceTokenId g', outputMint = targetTokenId g',
            amount = \<lfloor>quantityInvested g' / of_int (gridCount g') * 1000000\<rfloor>,
            slippageBps = 100\<rparr>)"
    and "objectIdIsValid e' (grid_id g')"
  shows "(\<exists>row. tradeCollection (executeSellTrade e g levelIndex w) = tradeCollection w @ [row] \<and>
            side row = SELL \<and> gridLevel row = levelIndex \<and>
            inputAmount row = quantityInvested g / of_int (gridCount g) / sellPrice \<and>
            profit row = Profit ((sellPrice - referenceBuyPrice) * inputAmount row) \<and>
            profit row =
              Profit ((sellPrice - referenceBuyPrice) *
                (quantityInvested g / of_int (gridCount g) / sellPrice))) \<and>
         (\<exists>row. tradeCollection (executeBuyTrade e' g' buyLevel w') = tradeCollection w' @ [row] \<and>
            side row = BUY \<and> gridLevel row = buyLevel \<and> profit row = Undefined) \<and>
         (tradeCollection (executeBuyTrade e'' g'' anyLevel w'') = tradeCollection w'' \<or>
          (\<exists>row. tradeCollection (executeBuyTrade e'' g'' anyLevel w'') =
                   tradeCollection w'' @ [row] \<and>
             side row = BUY \<and> gridLevel row = anyLevel \<and> profit row = Undefined))"
proof -
  from executeSellTrade_recorded [OF assms(1-5)]
  obtain row where row: "tradeCollection (executeSellTrade e g levelIndex w) = tradeCollection w @ [row]"
    "side row = SELL" "gridLevel row = levelIndex"
    "inputAmount row = quantityInvested g / of_int (gridCount g) / sellPrice"
    "profit row =
       (case (if levelIndex > 0 then map_of (levels g) (levelIndex - 1) else Some (lowerLimit g)) of
          None \<Rightarrow> NaN
        | Some bp \<Rightarrow> Profit ((sellPrice - bp) * inputAmount row))"
    by blast
  from row(5) assms(7) have p: "profit row = Profit ((sellPrice - referenceBuyPrice) * inputAmount row)"
    by (simp split: if_splits)
  then have "profit row =
      Profit ((sellPrice - referenceBuyPrice) * (quantityInvested g / of_int (gridCount g) / sellPrice))"
    by (simp only: row(4))
  with p row(1-4) have sell:
    "\<exists>row. tradeCollection (executeSellTrade e g levelIndex w) = tradeCollection w @ [row] \<and>
       side row = SELL \<and> gridLevel row = levelIndex \<and>
       inputAmount row = quantityInvested g / of_int (gridCount g) / sellPrice \<and>
       profit row = Profit ((sellPrice - referenceBuyPrice) * inputAmount row) \<and>
       profit row =
         Profit ((sellPrice - referenceBuyPrice) *
           (quantityInvested g / of_int (gridCount g) / sellPrice))"
    by blast
  from sell executeBuyTrade_recorded [OF assms(8-12)]
    executeBuyTrade_rows [of e'' g'' anyLevel w'']
  show ?thesis by (intro conjI)
qed

text \<open>
  Claim C7 at the concrete grid: a SELL at level 2 (price 110) against level 1 (price 105)
  sells \<open>400 / 4 / 110 = 10/11\<close> and records the profit \<open>5 * 10/11 = 50/11\<close>; a BUY at
  level 1 records a row without profit.
\<close>

theorem sell_profit_against_level_below_witness:
  "map_of (levels scenarioGrid) 2 = Some 110 \<and> (110::real) \<noteq> 0 \<and>
   gridStateMap (scenarioWorld (Some 1)) (grid_id scenarioGrid) = Some (scenarioState (Some 1)) \<and>
   objectIdIsValid venueAllSucceed (grid_id scenarioGrid) \<and>
   gridCount scenarioGrid \<noteq> 0 \<and>
   map_of (levels scenarioGrid) (2 - 1) = Some 105 \<and>
   map_of (levels scenarioGrid) 1 = Some 105 \<and> (105::real) \<noteq> 0 \<and>
   gridStateMap (scenarioWorld (Some 2)) (grid_id scenarioGrid) = Some (scenarioState (Some 2)) \<and>
   (\<exists>row. tradeCollection (executeSellTrade venueAllSucceed scenarioGrid 2 (scenarioWorld (Some 1))) =
            [row] \<and>
          side row = SELL \<and> gridLevel row = 2 \<and>
          inputAmount row = 10 / 11 \<and> profit row = Profit (50 / 11)) \<and>
   (\<exists>row. tradeCollection (executeBuyTrade venueAllSucceed scenarioGrid 1 (scenarioWorld (Some 2))) =
            [row] \<and>
          side row = BUY \<and> gridLevel row = 1 \<and> profit row = Undefined)"
proof -
  have q: "quantityInvested scenarioGrid = 400" by (simp add: scenarioGrid_def)
  from sell_profit_against_level_below [where g = scenarioGrid and levelIndex = 2
      and sellPrice = 110 and w = "scenarioWorld (Some 1)" and gs = "scenarioState (Some 1)"
      and e = venueAllSucceed and referenceBuyPrice = 105
      and g' = scenarioGrid and buyLevel = 1 and buyPrice = 105 and w' = "scenarioWorld (Some 2)"
      and gs' = "scenarioState (Some 2)" and e' = venueAllSucceed
      and g'' = scenarioGrid and anyLevel = 1 and w'' = "scenarioWorld (Some 2)"
      and e'' = venueAllSucceed]
  have "(\<exists>row. tradeCollection (executeSellTrade venueAllSucceed scenarioGrid 2
            (scenarioWorld (Some 1))) = [row] \<and>
          side row = SELL \<and> gridLevel row = 2 \<and>
          inputAmount row = 10 / 11 \<and> profit row = Profit (50 / 11)) \<and>
        (\<exists>row. tradeCollection (executeBuyTrade venueAllSucceed scenarioGrid 1
            (scenarioWorld (Some 2))) = [row] \<and>
          side row = BUY \<and> gridLevel row = 1 \<and> profit row = Undefined)"
    by (auto simp: scenario_levels scenario_state scenario_valid scenario_empty
          venueAllSucceed_success q)
  then show ?thesis
    by (simp add: scenario_levels scenario_state scenario_valid)
qed

text \<open>
  Claim C6, at a BUY of level 1 on the concrete grid (100 per level, level price 105): the
  swap is requested from the source token to the target token, for \<open>100 * 10\<^sup>6\<close> units, and
  the recorded row names the target token as input with the input amount \<open>100 / 105\<close> and
  the output amount 100.
\<close>

theorem buy_intent_and_row_at_level_1:
  "quantityInvested scenarioGrid / of_int (gridCount scenarioGrid) = 100 \<and>
   map inputMint (swapCalls (executeBuyTrade venueAllSucceed scenarioGrid 1 (scenarioWorld (Some 2)))) =
     [sourceTokenId scenarioGrid] \<and>
   map outputMint (swapCalls (executeBuyTrade venueAllSucceed scenarioGrid 1 (scenarioWorld (Some 2)))) =
     [targetTokenId scenarioGrid] \<and>
   map amount (swapCalls (executeBuyTrade venueAllSucceed scenarioGrid 1 (scenarioWorld (Some 2)))) =
     [100000000] \<and>
   map inputTokenId (tradeCollection (executeBuyTrade venueAllSucceed scenarioGrid 1 (scenarioWorld (Some 2)))) =
     [targetTokenId scenarioGrid] \<and>
   map inputAmount (tradeCollection (executeBuyTrade venueAllSucceed scenarioGrid 1 (scenarioWorld (Some 2)))) =
     [100 / 105] \<and>
   map outputAmount (tradeCollection (executeBuyTrade venueAllSucceed scenarioGrid 1 (scenarioWorld (Some 2)))) =
     [100]"
  by code_simp

section \<open>Rebuilding the level table\<close>

lemma buildLevels_eq:
  "buildLevels fl lower step i n =
   map (\<lambda>k. (k, numberToFixed6 fl (dadd fl lower (dmul fl step (of_int k))))) [i .. n]"
proof (induction fl lower step i n rule: buildLevels.induct)
  case (1 fl lower step i n)
  show ?case
  proof (cases "i \<le> n")
    case True
    with "1" show ?thesis by (simp add: buildLevels.simps [of fl lower step i] upto_rec1 [of i n])
  next
    case False
    then show ?thesis by (simp add: buildLevels.simps [of fl lower step i])
  qed
qed

lemma buildLevels_boundary:
  "buildLevels fl lower (ddiv fl (dsub fl upper lower) (of_int n)) 0 n =
   map (\<lambda>i. (i, levelBoundary fl upper lower n i)) [0 .. n]"
  by (simp add: buildLevels_eq levelBoundary_def)

lemma map_of_tab:
  "map_of (map (\<lambda>k. (k, f k)) [a .. n]) i = (if a \<le> i \<and> i \<le> n then Some (f i) else None)"
proof -
  have "map_of (map (\<lambda>k. (k, f k)) [a .. n]) = (Some \<circ> f) |` set [a .. n]"
    by (rule map_of_map_restrict)
  then show ?thesis by (simp add: restrict_map_def)
qed

lemma inLevel_tab:
  assumes "a \<le> i" and "i < n"
  shows "inLevel (map (\<lambda>k. (k, f k)) [a .. n]) i price = (f i \<le> price \<and> price < f (i + 1))"
  using assms by (simp add: inLevel_def map_of_tab)

lemma reprojectLoop_scan:
  assumes "a \<le> i"
  shows "reprojectLoop (map (\<lambda>k. (k, f k)) [a .. n]) price i n =
         scanLevels (map (\<lambda>k. (k, f k)) [i .. n]) price"
  using assms
proof (induction "map (\<lambda>k. (k, f k)) [a .. n]" price i n rule: reprojectLoop.induct)
  case (1 price i n)
  show ?case
  proof (cases "i < n")
    case True
    then have lst: "[i .. n] = i # (i + 1) # [i + 1 + 1 .. n]"
      by (simp add: upto_rec1 [of i n] upto_rec1 [of "i + 1" n])
    have nxt: "[i + 1 .. n] = (i + 1) # [i + 1 + 1 .. n]"
      using True by (simp add: upto_rec1 [of "i + 1" n])
    show ?thesis
    proof (cases "f i \<le> price \<and> price < f (i + 1)")
      case found: True
      with True "1.prems" show ?thesis
        by (simp add: reprojectLoop.simps [of _ price i n] inLevel_tab lst)
    next
      case False
      with True "1.prems" have "\<not> inLevel (map (\<lambda>k. (k, f k)) [a .. n]) i price"
        by (simp add: inLevel_tab)
      with True "1.hyps" "1.prems" have "reprojectLoop (map (\<lambda>k. (k, f k)) [a .. n]) price i n =
        scanLevels (map (\<lambda>k. (k, f k)) [i + 1 .. n]) price"
        by (simp add: reprojectLoop.simps [of _ price i n])
      also have "\<dots> = scanLevels (map (\<lambda>k. (k, f k)) [i .. n]) price"
        using False by (simp only: lst nxt list.map scanLevels.simps fst_conv snd_conv if_False)
      finally show ?thesis .
    qed
  next
    case False
    then have "[i .. n] = [] \<or> [i .. n] = [n]"
      by (cases "i = n") simp_all
    with False show ?thesis
      by (auto simp: reprojectLoop.simps [of _ price i n])
  qed
qed

lemma reprojectLoop_range:
  "reprojectLoop lv price i n = Some k \<Longrightarrow> i \<le> k \<and> k < n"
proof (induction lv price i n rule: reprojectLoop.induct)
  case (1 lv price i n)
  then show ?case
    by (simp add: reprojectLoop.simps [of lv price i n] split: if_splits)
qed

lemma scanLevels_found:
  "lv \<noteq> [] \<Longrightarrow> snd (hd lv) \<le> price \<Longrightarrow> price < snd (last lv) \<Longrightarrow>
   \<exists>i. scanLevels lv price = Some i"
  by (induction lv price rule: scanLevels.induct) (auto split: if_splits)

lemma sortedLevels_sorted:
  assumes "sorted (map snd lv)"
  shows "sortedLevels lv = lv"
  using assms unfolding sortedLevels_def by (rule sort_key_id_if_sorted)

lemma tab_ends:
  assumes "0 \<le> n"
  shows "map (\<lambda>k. (k, f k)) [0 .. n] \<noteq> [] \<and>
         snd (hd (map (\<lambda>k. (k, f k)) [0 .. n])) = f 0 \<and>
         snd (last (map (\<lambda>k. (k, f k)) [0 .. n])) = f n"
proof -
  from assms have a: "[0 .. n] = 0 # [0 + 1 .. n]" by (rule upto_rec1)
  from assms have b: "[0 .. n] = [0 .. n - 1] @ [n]" by (rule upto_rec2)
  have "snd (hd (map (\<lambda>k. (k, f k)) [0 .. n])) = f 0" by (subst a) simp
  moreover have "snd (last (map (\<lambda>k. (k, f k)) [0 .. n])) = f n" by (subst b) simp
  moreover from assms have "map (\<lambda>k. (k, f k)) [0 .. n] \<noteq> []" by simp
  ultimately show ?thesis by simp
qed

lemma no_crossing_tick:
  assumes "tokenPrices (targetTokenId g) = Some p"
    and "gridStateMap w (grid_id g) = Some gs"
    and "st_currentGridIndex gs = None \<or> st_currentGridIndex gs = Some (findGridLevelIndex g p)"
  shows "executing (processGrid e g tokenPrices w) = executing w \<and>
         swapCalls (processGrid e g tokenPrices w) = swapCalls w \<and>
         tradeCollection (processGrid e g tokenPrices w) = tradeCollection w"
proof (cases "st_currentGridIndex gs")
  case None
  show ?thesis
    by (simp add: processGrid_first [where tokenPrices = tokenPrices, OF assms(1,2) None])
next
  case (Some prev)
  with assms(3) have "prev = findGridLevelIndex g p" by simp
  then show ?thesis
    by (simp add: processGrid_tracking [where tokenPrices = tokenPrices, OF assms(1,2) Some] Let_def)
qed

lemma updateGridPriceLimits_result:
  assumes "objectIdIsValid e ident" and "lower < upper"
    and "gridCollection w ident = Some existing"
    and "n = (case count of Some c \<Rightarrow> c | None \<Rightarrow> gridCount existing)"
    and "2 \<le> n"
    and "currentPrice existing = Some price" and "price \<noteq> 0"
  shows "updateGridPriceLimits fl e ident upper lower count w =
         Some (w\<lparr>gridCollection := (gridCollection w)(ident \<mapsto>
           existing\<lparr>upperLimit := upper, lowerLimit := lower,
             levels := buildLevels fl lower (ddiv fl (dsub fl upper lower) (of_int n)) 0 n,
             currentGridIndex :=
               (if price \<le> lower then Some 0
                else if price \<ge> upper then Some n
                else reprojectLoop
                       (buildLevels fl lower (ddiv fl (dsub fl upper lower) (of_int n)) 0 n)
                       price 0 n),
             gridCount := n\<rparr>)\<rparr>)"
proof (cases count)
  case None
  with assms show ?thesis by (simp add: updateGridPriceLimits_def Let_def)
next
  case (Some c)
  with assms show ?thesis by (simp add: updateGridPriceLimits_def Let_def)
qed

lemma rebuilt_find:
  fixes lower upper :: real and n :: int
  assumes "2 \<le> n"
    and "lowerLimit doc = lower" and "upperLimit doc = upper" and "gridCount doc = n"
    and "levels doc = map (\<lambda>i. (i, f i)) [0 .. n]"
    and "sorted (map f [0 .. n])"
  shows "findGridLevelIndex doc price =
           (if price \<ge> upper then n
            else if price \<le> lower then 0
            else (case reprojectLoop (levels doc) price 0 n of
                    Some i \<Rightarrow> i
                  | None \<Rightarrow> n div 2))"
    and "f 0 \<le> price \<Longrightarrow> price < f n \<Longrightarrow> reprojectLoop (levels doc) price 0 n \<noteq> None"
proof -
  have "map snd (levels doc) = map f [0 .. n]" by (simp add: assms(5) comp_def)
  with assms(6) have srt: "sortedLevels (levels doc) = levels doc"
    by (intro sortedLevels_sorted) simp
  have scan: "reprojectLoop (levels doc) price 0 n = scanLevels (levels doc) price"
    unfolding assms(5) by (rule reprojectLoop_scan) simp
  show "findGridLevelIndex doc price =
           (if price \<ge> upper then n
            else if price \<le> lower then 0
            else (case reprojectLoop (levels doc) price 0 n of
                    Some i \<Rightarrow> i
                  | None \<Rightarrow> n div 2))"
    by (auto simp: findGridLevelIndex_def assms(2-4) srt scan split: option.splits)
  assume inside: "f 0 \<le> price" "price < f n"
  from assms(1) have n: "0 \<le> n" by simp
  have "levels doc \<noteq> []" "snd (hd (levels doc)) \<le> price" "price < snd (last (levels doc))"
    using tab_ends [OF n, of f] inside unfolding assms(5) by simp_all
  from scanLevels_found [OF this] show "reprojectLoop (levels doc) price 0 n \<noteq> None"
    by (auto simp: scan)
qed

lemma exact_boundaries:
  "levelBoundary exactArith 130 90 4 0 = 90" "levelBoundary exactArith 130 90 4 1 = 100"
  "levelBoundary exactArith 130 90 4 2 = 110" "levelBoundary exactArith 130 90 4 3 = 120"
  "levelBoundary exactArith 130 90 4 4 = 130"
  by (simp_all add: levelBoundary_def exactArith_def toFixed6_def)

text \<open>
  Claim C8 at limits that are not multiples of \<open>10\<^sup>-\<^sup>6\<close>: with the limits \<open>0.0000006\<close> and 1,
  two levels and the stored price \<open>0.0000008\<close>, the table starts at the rounded
  \<open>0.000001\<close>, no interval of it holds the price, and the stored index is \<open>null\<close> while
  \<open>findGridLevelIndex\<close> falls back to level 1.  With the limits 0 and 1 and three levels the
  table is \<open>0, 0.333333, 0.666667, 1\<close>.
\<close>

theorem limits_edit_reprojection_counterexample:
  "(6 / 10000000 :: real) < 1 \<and>
   storedAfterEdit (updateGridPriceLimits exactArith venueAllSucceed (grid_id scenarioGrid) 1
     (6 / 10000000) (Some 2) lowPriceWorld) (grid_id scenarioGrid) \<noteq> None \<and>
   map_option currentPrice (storedAfterEdit (updateGridPriceLimits exactArith venueAllSucceed
     (grid_id scenarioGrid) 1 (6 / 10000000) (Some 2) lowPriceWorld) (grid_id scenarioGrid)) =
     Some (Some (8 / 10000000)) \<and>
   map_option levels (storedAfterEdit (updateGridPriceLimits exactArith venueAllSucceed
     (grid_id scenarioGrid) 1 (6 / 10000000) (Some 2) lowPriceWorld) (grid_id scenarioGrid)) =
     Some [(0, 1 / 1000000), (1, 1 / 2), (2, 1)] \<and>
   map_option currentGridIndex (storedAfterEdit (updateGridPriceLimits exactArith venueAllSucceed
     (grid_id scenarioGrid) 1 (6 / 10000000) (Some 2) lowPriceWorld) (grid_id scenarioGrid)) =
     Some None \<and>
   findGridLevelIndex (the (storedAfterEdit (updateGridPriceLimits exactArith venueAllSucceed
     (grid_id scenarioGrid) 1 (6 / 10000000) (Some 2) lowPriceWorld) (grid_id scenarioGrid)))
     (8 / 10000000) = 1 \<and>
   map_option levels (storedAfterEdit (updateGridPriceLimits exactArith venueAllSucceed
     (grid_id scenarioGrid) 1 0 (Some 3) (scenarioWorld (Some 1))) (grid_id scenarioGrid)) =
     Some [(0, 0), (1, 333333 / 1000000), (2, 666667 / 1000000), (3, 1)]"
  by code_simp

text \<open>
  Claim C8, as the code has it.  An edit of the limits with \<open>lower < upper\<close>, a resulting
  level count of at least 2 and a stored nonzero price writes one document that holds the
  new limits, the new table and the level index.  The table has the keys \<open>0 .. count\<close>;
  boundary \<open>i\<close> is the double \<open>lower + step * i\<close>, with \<open>step = (upper - lower) / count\<close>,
  rounded by \<open>toFixed(6)\<close>.  These boundaries do not decrease with \<open>i\<close> (the hypothesis on
  the double operations).  When the stored price is at or below the lower limit, at or above
  the upper limit, or inside the written table (first boundary \<open>\<le>\<close> price \<open><\<close> last
  boundary), the stored level index is the level that \<open>findGridLevelIndex\<close> gives that price
  on the new grid, between 0 and the level count.  In every case a tick on the new grid at
  the stored price, from a grid state that holds the stored index or was initialised from
  the document, announces no crossing and trades nothing.
\<close>

theorem limits_edit_reprojects_level:
  assumes "objectIdIsValid e ident" and "lower < upper"
    and "gridCollection w ident = Some existing"
    and "newCount = (case count of Some c \<Rightarrow> c | None \<Rightarrow> gridCount existing)"
    and "2 \<le> newCount"
    and "currentPrice existing = Some price" and "price \<noteq> 0"
    and "sorted (map (levelBoundary fl upper lower newCount) [0 .. newCount])"
  shows "\<exists>w' doc.
           updateGridPriceLimits fl e ident upper lower count w = Some w' \<and>
           gridCollection w' ident = Some doc \<and>
           grid_id doc = grid_id existing \<and> targetTokenId doc = targetTokenId existing \<and>
           gridCount doc = newCount \<and> lowerLimit doc = lower \<and> upperLimit doc = upper \<and>
           levels doc = map (\<lambda>i. (i, levelBoundary fl upper lower newCount i)) [0 .. newCount] \<and>
           (price \<le> lower \<or> upper \<le> price \<or>
            (levelBoundary fl upper lower newCount 0 \<le> price \<and>
             price < levelBoundary fl upper lower newCount newCount) \<longrightarrow>
              currentGridIndex doc = Some (findGridLevelIndex doc price) \<and>
              0 \<le> findGridLevelIndex doc price \<and> findGridLevelIndex doc price \<le> newCount) \<and>
           (\<forall>e' tokenPrices w2 gs.
              tokenPrices (targetTokenId doc) = Some price \<and>
              gridStateMap w2 (grid_id doc) = Some gs \<and>
              (st_currentGridIndex gs = currentGridIndex doc \<or> gs = initialState doc) \<longrightarrow>
              executing (processGrid e' doc tokenPrices w2) = executing w2 \<and>
              swapCalls (processGrid e' doc tokenPrices w2) = swapCalls w2 \<and>
              tradeCollection (processGrid e' doc tokenPrices w2) = tradeCollection w2)"
proof -
  define lv where "lv = buildLevels fl lower (ddiv fl (dsub fl upper lower) (of_int newCount)) 0 newCount"
  define idx where "idx = (if price \<le> lower then Some 0
                else if price \<ge> upper then Some newCount
                else reprojectLoop lv price 0 newCount)"
  define doc where "doc = existing\<lparr>upperLimit := upper, lowerLimit := lower,
             levels := lv, currentGridIndex := idx, gridCount := newCount\<rparr>"
  define w' where "w' = w\<lparr>gridCollection := (gridCollection w)(ident \<mapsto> doc)\<rparr>"
  have res: "updateGridPriceLimits fl e ident upper lower count w = Some w'"
    unfolding w'_def doc_def idx_def lv_def by (rule updateGridPriceLimits_result [OF assms(1-7)])
  have stored: "gridCollection w' ident = Some doc" by (simp add: w'_def)
  have fields: "lowerLimit doc = lower" "upperLimit doc = upper" "gridCount doc = newCount"
    "levels doc = lv" "currentGridIndex doc = idx"
    "grid_id doc = grid_id existing" "targetTokenId doc = targetTokenId existing"
    by (simp_all add: doc_def)
  have tab: "levels doc = map (\<lambda>i. (i, levelBoundary fl upper lower newCount i)) [0 .. newCount]"
    unfolding fields(4) lv_def by (rule buildLevels_boundary)
  note find = rebuilt_find [OF assms(5) fields(1-3) tab assms(8), of price, unfolded fields(4)]
  have agree: "findGridLevelIndex doc price = i \<and> 0 \<le> i \<and> i \<le> newCount" if "idx = Some i" for i
  proof -
    consider "price \<le> lower" | "upper \<le> price" | "lower < price" "price < upper" by linarith
    then show ?thesis
    proof cases
      case 1
      with that assms(2,5) show ?thesis by (simp add: idx_def find(1))
    next
      case 2
      with that assms(2,5) show ?thesis by (simp add: idx_def find(1))
    next
      case 3
      with that have loop: "reprojectLoop lv price 0 newCount = Some i" by (simp add: idx_def)
      from reprojectLoop_range [OF loop] 3 loop show ?thesis by (simp add: find(1))
    qed
  qed
  have some: "idx \<noteq> None"
    if "price \<le> lower \<or> upper \<le> price \<or>
        (levelBoundary fl upper lower newCount 0 \<le> price \<and>
         price < levelBoundary fl upper lower newCount newCount)"
  proof (cases "price \<le> lower \<or> upper \<le> price")
    case True
    then show ?thesis by (auto simp: idx_def)
  next
    case False
    with that find(2) show ?thesis by (simp add: idx_def)
  qed
  have located: "currentGridIndex doc = Some (findGridLevelIndex doc price) \<and>
      0 \<le> findGridLevelIndex doc price \<and> findGridLevelIndex doc price \<le> newCount"
    if "price \<le> lower \<or> upper \<le> price \<or>
        (levelBoundary fl upper lower newCount 0 \<le> price \<and>
         price < levelBoundary fl upper lower newCount newCount)"
  proof -
    from some [OF that] obtain i where i: "idx = Some i" by auto
    from agree [OF i] i show ?thesis by (simp add: fields(5))
  qed
  have quiet: "executing (processGrid e' doc tokenPrices w2) = executing w2 \<and>
      swapCalls (processGrid e' doc tokenPrices w2) = swapCalls w2 \<and>
      tradeCollection (processGrid e' doc tokenPrices w2) = tradeCollection w2"
    if "tokenPrices (targetTokenId doc) = Some price \<and>
        gridStateMap w2 (grid_id doc) = Some gs \<and>
        (st_currentGridIndex gs = currentGridIndex doc \<or> gs = initialState doc)"
    for e' tokenPrices w2 gs
  proof -
    have "st_currentGridIndex gs = None \<or>
          st_currentGridIndex gs = Some (findGridLevelIndex doc price)"
    proof (cases "st_currentGridIndex gs")
      case None
      then show ?thesis by simp
    next
      case (Some i)
      with that have "idx = Some i"
        by (auto simp: fields(5) initialState_def split: option.splits if_splits)
      from agree [OF this] Some show ?thesis by simp
    qed
    with that show ?thesis
      using no_crossing_tick [where tokenPrices = tokenPrices and g = doc and p = price
          and w = w2 and gs = gs and e = e']
      by blast
  qed
  from res stored fields(6,7) fields(1-3) tab located quiet show ?thesis by blast
qed

text \<open>
  Claim C8 at the end-to-end scenario 3: the range \<open>[100, 120]\<close> becomes \<open>[90, 130]\<close> with the
  stored price 106 and the same level count; the written table is 90, 100, 110, 120, 130 and
  the stored index is 1.
\<close>

theorem limits_edit_reprojects_level_witness:
  "objectIdIsValid venueAllSucceed (grid_id scenarioGrid) \<and> (90::real) < 130 \<and>
   gridCollection (scenarioWorld (Some 1)) (grid_id scenarioGrid) = Some scenarioGrid \<and>
   (2::int) \<le> gridCount scenarioGrid \<and>
   currentPrice scenarioGrid = Some 106 \<and> (106::real) \<noteq> 0 \<and>
   sorted (map (levelBoundary exactArith 130 90 (gridCount scenarioGrid))
     [0 .. gridCount scenarioGrid]) \<and>
   levelBoundary exactArith 130 90 (gridCount scenarioGrid) 0 \<le> 106 \<and>
   106 < levelBoundary exactArith 130 90 (gridCount scenarioGrid) (gridCount scenarioGrid) \<and>
   storedAfterEdit (updateGridPriceLimits exactArith venueAllSucceed (grid_id scenarioGrid) 130 90
     None (scenarioWorld (Some 1))) (grid_id scenarioGrid) \<noteq> None \<and>
   map_option levels (storedAfterEdit (updateGridPriceLimits exactArith venueAllSucceed
     (grid_id scenarioGrid) 130 90 None (scenarioWorld (Some 1))) (grid_id scenarioGrid)) =
     Some [(0, 90), (1, 100), (2, 110), (3, 120), (4, 130)] \<and>
   currentGridIndex (the (storedAfterEdit (updateGridPriceLimits exactArith venueAllSucceed
     (grid_id scenarioGrid) 130 90 None (scenarioWorld (Some 1))) (grid_id scenarioGrid))) =
     Some (findGridLevelIndex (the (storedAfterEdit (updateGridPriceLimits exactArith
       venueAllSucceed (grid_id scenarioGrid) 130 90 None (scenarioWorld (Some 1)))
       (grid_id scenarioGrid))) 106) \<and>
   executing (processGrid venueAllSucceed
     (the (storedAfterEdit (updateGridPriceLimits exactArith venueAllSucceed
       (grid_id scenarioGrid) 130 90 None (scenarioWorld (Some 1))) (grid_id scenarioGrid)))
     (scenarioPrices 106)
     (scenarioWorld (currentGridIndex (the (storedAfterEdit (updateGridPriceLimits exactArith
       venueAllSucceed (grid_id scenarioGrid) 130 90 None (scenarioWorld (Some 1)))
       (grid_id scenarioGrid)))))) = []"
proof -
  have price: "currentPrice scenarioGrid = Some 106" by (simp add: scenarioGrid_def)
  have count: "gridCount scenarioGrid = (case None of Some c \<Rightarrow> c | None \<Rightarrow> gridCount scenarioGrid)"
    by simp
  have two: "2 \<le> gridCount scenarioGrid" by (simp add: scenario_levels)
  have lt: "(90::real) < 130" and nz: "(106::real) \<noteq> 0" by simp_all
  have srt: "sorted (map (levelBoundary exactArith 130 90 (gridCount scenarioGrid))
      [0 .. gridCount scenarioGrid])"
    by (simp add: scenario_levels upto_small exact_boundaries)
  have inside: "levelBoundary exactArith 130 90 (gridCount scenarioGrid) 0 \<le> 106"
    "106 < levelBoundary exactArith 130 90 (gridCount scenarioGrid) (gridCount scenarioGrid)"
    by (simp_all add: scenario_levels exact_boundaries)
  from limits_edit_reprojects_level [OF scenario_valid(1) lt scenario_doc [of "Some 1"] count two
      price nz srt]
  obtain w' doc where r:
    "updateGridPriceLimits exactArith venueAllSucceed (grid_id scenarioGrid) 130 90 None
       (scenarioWorld (Some 1)) = Some w'"
    "gridCollection w' (grid_id scenarioGrid) = Some doc"
    "grid_id doc = grid_id scenarioGrid" "targetTokenId doc = targetTokenId scenarioGrid"
    "levels doc = map (\<lambda>i. (i, levelBoundary exactArith 130 90 (gridCount scenarioGrid) i))
       [0 .. gridCount scenarioGrid]"
    "106 \<le> (90::real) \<or> (130::real) \<le> 106 \<or>
       (levelBoundary exactArith 130 90 (gridCount scenarioGrid) 0 \<le> 106 \<and>
        106 < levelBoundary exactArith 130 90 (gridCount scenarioGrid) (gridCount scenarioGrid)) \<longrightarrow>
       currentGridIndex doc = Some (findGridLevelIndex doc 106)"
    "\<forall>e' tokenPrices w2 gs.
       tokenPrices (targetTokenId doc) = Some 106 \<and>
       gridStateMap w2 (grid_id doc) = Some gs \<and>
       (st_currentGridIndex gs = currentGridIndex doc \<or> gs = initialState doc) \<longrightarrow>
       executing (processGrid e' doc tokenPrices w2) = executing w2 \<and>
       swapCalls (processGrid e' doc tokenPrices w2) = swapCalls w2 \<and>
       tradeCollection (processGrid e' doc tokenPrices w2) = tradeCollection w2"
    by blast
  have stored: "storedAfterEdit (updateGridPriceLimits exactArith venueAllSucceed
      (grid_id scenarioGrid) 130 90 None (scenarioWorld (Some 1))) (grid_id scenarioGrid) = Some doc"
    by (simp add: storedAfterEdit_def r(1,2))
  from r(5) have tab: "levels doc = [(0, 90), (1, 100), (2, 110), (3, 120), (4, 130)]"
    by (simp add: scenario_levels upto_small exact_boundaries)
  from r(6) inside have idx: "currentGridIndex doc = Some (findGridLevelIndex doc 106)"
    by simp
  from r(7) have "scenarioPrices 106 (targetTokenId doc) = Some 106 \<and>
       gridStateMap (scenarioWorld (currentGridIndex doc)) (grid_id doc) =
         Some (scenarioState (currentGridIndex doc)) \<and>
       st_currentGridIndex (scenarioState (currentGridIndex doc)) = currentGridIndex doc \<longrightarrow>
       executing (processGrid venueAllSucceed doc (scenarioPrices 106)
         (scenarioWorld (currentGridIndex doc))) = []"
    by (simp add: scenario_empty)
  then have quiet: "executing (processGrid venueAllSucceed doc (scenarioPrices 106)
         (scenarioWorld (currentGridIndex doc))) = []"
    by (simp add: r(3,4) scenario_price scenario_state scenario_index)
  from idx quiet tab srt inside show ?thesis
    by (simp add: stored scenario_valid scenario_doc two price)
qed

section \<open>Inventory in the bot and in the store\<close>

lemma inventorySynced_cong:
  assumes "memoryInventory w' ident = memoryInventory w ident"
    and "storedInventory w' ident = storedInventory w ident"
  shows "inventorySynced w' ident = inventorySynced w ident"
  using assms by (simp add: inventorySynced_def split: option.splits prod.splits)

lemma modifyGridState_inventory:
  assumes "\<And>s. tokenAmounts_source (f s) = tokenAmounts_source s"
    and "\<And>s. tokenAmounts_target (f s) = tokenAmounts_target s"
  shows "memoryInventory (modifyGridState ident f w) k = memoryInventory w k"
    and "storedInventory (modifyGridState ident f w) k = storedInventory w k"
  using assms
  by (auto simp: memoryInventory_def storedInventory_def modifyGridState_def split: option.splits)

lemma updateGridCurrentPrice_inventory:
  "memoryInventory (updateGridCurrentPrice e ident p w) k = memoryInventory w k"
  "storedInventory (updateGridCurrentPrice e ident p w) k = storedInventory w k"
  by (auto simp: memoryInventory_def storedInventory_def updateGridCurrentPrice_def
      split: option.splits)

lemma executeSellTrade_inventory:
  assumes "objectIdIsValid e (grid_id g)" and "gridCollection w (grid_id g) = Some doc"
  shows "inventorySynced (executeSellTrade e g i w) (grid_id g) \<or>
         (memoryInventory (executeSellTrade e g i w) (grid_id g) = memoryInventory w (grid_id g) \<and>
          storedInventory (executeSellTrade e g i w) (grid_id g) = storedInventory w (grid_id g))"
  using assms
  by (auto simp: executeSellTrade_def Let_def updateGridTokenAmounts_def incrementGridTrades_def
      memoryInventory_def storedInventory_def inventorySynced_def split: option.splits)

lemma executeBuyTrade_inventory:
  assumes "objectIdIsValid e (grid_id g)" and "gridCollection w (grid_id g) = Some doc"
  shows "inventorySynced (executeBuyTrade e g i w) (grid_id g) \<or>
         (memoryInventory (executeBuyTrade e g i w) (grid_id g) = memoryInventory w (grid_id g) \<and>
          storedInventory (executeBuyTrade e g i w) (grid_id g) = storedInventory w (grid_id g))"
  using assms
  by (auto simp: executeBuyTrade_def Let_def updateGridTokenAmounts_def incrementGridTrades_def
      memoryInventory_def storedInventory_def inventorySynced_def split: option.splits)

lemma stored_document_kept:
  assumes "map_option levels (gridCollection w' k) = map_option levels (gridCollection w k)"
    and "gridCollection w k = Some doc"
  shows "\<exists>doc'. gridCollection w' k = Some doc'"
  using assms by (cases "gridCollection w' k") simp_all

lemma sellLoop_inventory:
  assumes "objectIdIsValid e (grid_id g)" and "gridCollection w (grid_id g) = Some doc"
  shows "inventorySynced (sellLoop e g i n w) (grid_id g) \<or>
         (memoryInventory (sellLoop e g i n w) (grid_id g) = memoryInventory w (grid_id g) \<and>
          storedInventory (sellLoop e g i n w) (grid_id g) = storedInventory w (grid_id g))"
  using assms
proof (induction e g i n w arbitrary: doc rule: sellLoop.induct)
  case (1 e g i n w)
  show ?case
  proof (cases "i \<le> n")
    case False
    then show ?thesis by (simp add: sellLoop.simps [of e g i])
  next
    case True
    let ?w1 = "executeSellTrade e g i w"
    from stored_document_kept [OF executeSellTrade_levels "1.prems"(2)]
    obtain doc1 where doc1: "gridCollection ?w1 (grid_id g) = Some doc1" by blast
    have step: "inventorySynced ?w1 (grid_id g) \<or>
         (memoryInventory ?w1 (grid_id g) = memoryInventory w (grid_id g) \<and>
          storedInventory ?w1 (grid_id g) = storedInventory w (grid_id g))"
      by (rule executeSellTrade_inventory [OF "1.prems"])
    have rest: "inventorySynced (sellLoop e g (i + 1) n ?w1) (grid_id g) \<or>
         (memoryInventory (sellLoop e g (i + 1) n ?w1) (grid_id g) = memoryInventory ?w1 (grid_id g) \<and>
          storedInventory (sellLoop e g (i + 1) n ?w1) (grid_id g) = storedInventory ?w1 (grid_id g))"
      by (rule "1.IH" [OF True "1.prems"(1) doc1])
    have unfold: "sellLoop e g i n w = sellLoop e g (i + 1) n ?w1"
      using True by (simp add: sellLoop.simps [of e g i])
    from step rest show ?thesis
      unfolding unfold using inventorySynced_cong by metis
  qed
qed

lemma buyLoop_inventory:
  assumes "objectIdIsValid e (grid_id g)" and "gridCollection w (grid_id g) = Some doc"
  shows "inventorySynced (buyLoop e g i n w) (grid_id g) \<or>
         (memoryInventory (buyLoop e g i n w) (grid_id g) = memoryInventory w (grid_id g) \<and>
          storedInventory (buyLoop e g i n w) (grid_id g) = storedInventory w (grid_id g))"
  using assms
proof (induction e g i n w arbitrary: doc rule: buyLoop.induct)
  case (1 e g i n w)
  show ?case
  proof (cases "i > n")
    case False
    then show ?thesis by (simp add: buyLoop.simps [of e g i])
  next
    case True
    let ?w1 = "executeBuyTrade e g i w"
    from stored_document_kept [OF executeBuyTrade_levels "1.prems"(2)]
    obtain doc1 where doc1: "gridCollection ?w1 (grid_id g) = Some doc1" by blast
    have step: "inventorySynced ?w1 (grid_id g) \<or>
         (memoryInventory ?w1 (grid_id g) = memoryInventory w (grid_id g) \<and>
          storedInventory ?w1 (grid_id g) = storedInventory w (grid_id g))"
      by (rule executeBuyTrade_inventory [OF "1.prems"])
    have rest: "inventorySynced (buyLoop e g (i - 1) n ?w1) (grid_id g) \<or>
         (memoryInventory (buyLoop e g (i - 1) n ?w1) (grid_id g) = memoryInventory ?w1 (grid_id g) \<and>
          storedInventory (buyLoop e g (i - 1) n ?w1) (grid_id g) = storedInventory ?w1 (grid_id g))"
      by (rule "1.IH" [OF True "1.prems"(1) doc1])
    have unfold: "buyLoop e g i n w = buyLoop e g (i - 1) n ?w1"
      using True by (simp add: buyLoop.simps [of e g i])
    from step rest show ?thesis
      unfolding unfold using inventorySynced_cong by metis
  qed
qed

lemma tick_inventory:
  assumes "tokenPrices (targetTokenId g) = Some price"
    and "gridStateMap w (grid_id g) = Some gs"
    and "st_currentGridIndex gs = Some previousLevel"
    and "objectIdIsValid e (grid_id g)"
    and "gridCollection w (grid_id g) = Some doc"
  shows "inventorySynced (processGrid e g tokenPrices w) (grid_id g) \<or>
         (memoryInventory (processGrid e g tokenPrices w) (grid_id g) = memoryInventory w (grid_id g) \<and>
          storedInventory (processGrid e g tokenPrices w) (grid_id g) = storedInventory w (grid_id g))"
proof -
  let ?new = "findGridLevelIndex g price"
  let ?w1 = "modifyGridState (grid_id g) (\<lambda>s. s\<lparr>lastCheckedPrice := Some price\<rparr>) w"
  let ?w2 = "if ?new > previousLevel then sellLoop e g (previousLevel + 1) ?new ?w1
             else buyLoop e g previousLevel ?new ?w1"
  have w1: "memoryInventory ?w1 (grid_id g) = memoryInventory w (grid_id g)"
    "storedInventory ?w1 (grid_id g) = storedInventory w (grid_id g)"
    by (simp_all add: modifyGridState_inventory)
  have doc1: "gridCollection ?w1 (grid_id g) = Some doc" using assms(5) by simp
  have trades: "inventorySynced ?w2 (grid_id g) \<or>
         (memoryInventory ?w2 (grid_id g) = memoryInventory ?w1 (grid_id g) \<and>
          storedInventory ?w2 (grid_id g) = storedInventory ?w1 (grid_id g))"
    using sellLoop_inventory [OF assms(4) doc1] buyLoop_inventory [OF assms(4) doc1]
    by (cases "?new > previousLevel") simp_all
  show ?thesis
  proof (cases "?new = previousLevel")
    case True
    then show ?thesis
      by (simp add: processGrid_tracking [where tokenPrices = tokenPrices, OF assms(1-3)] Let_def w1)
  next
    case False
    let ?w4 = "updateGridCurrentPrice e (grid_id g) price
        (modifyGridState (grid_id g) (\<lambda>s. s\<lparr>st_currentGridIndex := Some ?new\<rparr>) ?w2)"
    have eq: "processGrid e g tokenPrices w = ?w4"
      using False
      by (simp add: processGrid_tracking [where tokenPrices = tokenPrices, OF assms(1-3)] Let_def)
    have w4: "memoryInventory ?w4 (grid_id g) = memoryInventory ?w2 (grid_id g)"
      "storedInventory ?w4 (grid_id g) = storedInventory ?w2 (grid_id g)"
      by (simp_all only: updateGridCurrentPrice_inventory)
         (simp_all add: modifyGridState_inventory)
    from trades w1 w4 show ?thesis
      unfolding eq using inventorySynced_cong by metis
  qed
qed

text \<open>
  Claim C9 on three ticks of the grid at level 1.  A tick at 107 stays at level 1: the grid
  state holds 107 and the grid document still 106.  A tick at 125 moves to level 4: the
  document receives the index \<open>null\<close>.  A tick at 118 on a venue where every swap fails,
  for a document without token amounts: the document receives the price 118 and still has no
  token amounts, while the grid state holds the amounts 0 and 0.
\<close>

theorem checkpoint_every_tick_counterexample:
  "findGridLevelIndex scenarioGrid 107 = 1 \<and>
   map_option lastCheckedPrice (gridStateMap
     (processGrid venueAllSucceed scenarioGrid (scenarioPrices 107) (scenarioWorld (Some 1)))
     (grid_id scenarioGrid)) = Some (Some 107) \<and>
   map_option currentPrice (gridCollection
     (processGrid venueAllSucceed scenarioGrid (scenarioPrices 107) (scenarioWorld (Some 1)))
     (grid_id scenarioGrid)) = Some (Some 106) \<and>
   map_option st_currentGridIndex (gridStateMap
     (processGrid venueAllSucceed scenarioGrid (scenarioPrices 125) (scenarioWorld (Some 1)))
     (grid_id scenarioGrid)) = Some (Some 4) \<and>
   map_option currentGridIndex (gridCollection
     (processGrid venueAllSucceed scenarioGrid (scenarioPrices 125) (scenarioWorld (Some 1)))
     (grid_id scenarioGrid)) = Some None \<and>
   map_option currentPrice (gridCollection
     (processGrid venueAllFail scenarioGrid (scenarioPrices 118) freshWorld)
     (grid_id scenarioGrid)) = Some (Some 118) \<and>
   storedInventory (processGrid venueAllFail scenarioGrid (scenarioPrices 118) freshWorld)
     (grid_id scenarioGrid) = Some (None, None) \<and>
   memoryInventory (processGrid venueAllFail scenarioGrid (scenarioPrices 118) freshWorld)
     (grid_id scenarioGrid) = Some (0, 0)"
  by code_simp

text \<open>
  Claim C9, as the code has it.  On a tick of a tracked grid the price and the level index
  that the store recomputes from its own table are written to the grid document exactly when
  the located level differs from the previous one, whatever the outcome of the swaps of the
  loop.  When the level is unchanged the collection of grid documents is left as it was, no
  swap is requested, no row recorded, and of the grid state only \<open>lastCheckedPrice\<close>
  changes.  After the tick the stored token amounts are those of the grid state, or both are
  what they were before the tick: a trade that goes through writes them,
  \<open>updateGridCurrentPrice\<close> does not.
\<close>

theorem checkpoint_when_level_changed:
  assumes "tokenPrices (targetTokenId g) = Some price"
    and "gridStateMap w (grid_id g) = Some gs"
    and "st_currentGridIndex gs = Some previousLevel"
    and "objectIdIsValid e (grid_id g)"
    and "gridCollection w (grid_id g) = Some doc"
  shows "(findGridLevelIndex g price \<noteq> previousLevel \<longrightarrow>
            map_option currentPrice (gridCollection (processGrid e g tokenPrices w) (grid_id g)) =
              Some (Some price) \<and>
            map_option currentGridIndex (gridCollection (processGrid e g tokenPrices w) (grid_id g)) =
              Some (storedLevelIndex (levels doc) price)) \<and>
         (findGridLevelIndex g price = previousLevel \<longrightarrow>
            gridCollection (processGrid e g tokenPrices w) = gridCollection w \<and>
            gridStateMap (processGrid e g tokenPrices w) =
              (gridStateMap w)(grid_id g \<mapsto> gs\<lparr>lastCheckedPrice := Some price\<rparr>) \<and>
            swapCalls (processGrid e g tokenPrices w) = swapCalls w \<and>
            tradeCollection (processGrid e g tokenPrices w) = tradeCollection w) \<and>
         (inventorySynced (processGrid e g tokenPrices w) (grid_id g) \<or>
          (memoryInventory (processGrid e g tokenPrices w) (grid_id g) =
             memoryInventory w (grid_id g) \<and>
           storedInventory (processGrid e g tokenPrices w) (grid_id g) =
             storedInventory w (grid_id g))) \<and>
         storedInventory (updateGridCurrentPrice e (grid_id g) price w0) k = storedInventory w0 k"
proof -
  have inv: "inventorySynced (processGrid e g tokenPrices w) (grid_id g) \<or>
          (memoryInventory (processGrid e g tokenPrices w) (grid_id g) =
             memoryInventory w (grid_id g) \<and>
           storedInventory (processGrid e g tokenPrices w) (grid_id g) =
             storedInventory w (grid_id g))"
    by (rule tick_inventory [where tokenPrices = tokenPrices, OF assms])
  have chk: "storedInventory (updateGridCurrentPrice e (grid_id g) price w0) k = storedInventory w0 k"
    by (rule updateGridCurrentPrice_inventory)
  show ?thesis
  proof (cases "findGridLevelIndex g price = previousLevel")
    case True
    then have "gridCollection (processGrid e g tokenPrices w) = gridCollection w \<and>
            gridStateMap (processGrid e g tokenPrices w) =
              (gridStateMap w)(grid_id g \<mapsto> gs\<lparr>lastCheckedPrice := Some price\<rparr>) \<and>
            swapCalls (processGrid e g tokenPrices w) = swapCalls w \<and>
            tradeCollection (processGrid e g tokenPrices w) = tradeCollection w"
      by (simp add: processGrid_tracking [where tokenPrices = tokenPrices, OF assms(1-3)] Let_def
            modifyGridState_Some [OF assms(2)])
    with True inv chk show ?thesis by simp
  next
    case False
    let ?new = "findGridLevelIndex g price"
    let ?w1 = "modifyGridState (grid_id g) (\<lambda>s. s\<lparr>lastCheckedPrice := Some price\<rparr>) w"
    let ?w2 = "if ?new > previousLevel then sellLoop e g (previousLevel + 1) ?new ?w1
               else buyLoop e g previousLevel ?new ?w1"
    let ?w3 = "modifyGridState (grid_id g) (\<lambda>s. s\<lparr>st_currentGridIndex := Some ?new\<rparr>) ?w2"
    have "map_option levels (gridCollection ?w3 (grid_id g)) =
          map_option levels (gridCollection ?w1 (grid_id g))"
      by (simp only: modifyGridState_frame tracking_levels_after)
    also have "\<dots> = Some (levels doc)" using assms(5) by simp
    finally obtain doc' where doc': "gridCollection ?w3 (grid_id g) = Some doc'"
      "levels doc' = levels doc"
      by auto
    have eq: "processGrid e g tokenPrices w = updateGridCurrentPrice e (grid_id g) price ?w3"
      using False
      by (simp add: processGrid_tracking [where tokenPrices = tokenPrices, OF assms(1-3)] Let_def)
    have "map_option currentPrice (gridCollection (processGrid e g tokenPrices w) (grid_id g)) =
              Some (Some price) \<and>
          map_option currentGridIndex (gridCollection (processGrid e g tokenPrices w) (grid_id g)) =
              Some (storedLevelIndex (levels doc) price)"
      unfolding eq using doc'(2)
      by (simp add: updateGridCurrentPrice_stored [OF assms(4) doc'(1)])
    with False inv chk show ?thesis by simp
  qed
qed

text \<open>
  Claim C9 at the concrete grid at level 1, on the venue whose first swap fails: a tick at
  118 changes the level, its second SELL goes through, and the document receives the price,
  the index 3 and the token amounts of the grid state; a tick at 107 does not change the
  level.
\<close>

theorem checkpoint_when_level_changed_witness:
  "scenarioPrices 118 (targetTokenId scenarioGrid) = Some 118 \<and>
   gridStateMap (scenarioWorld (Some 1)) (grid_id scenarioGrid) = Some (scenarioState (Some 1)) \<and>
   st_currentGridIndex (scenarioState (Some 1)) = Some 1 \<and>
   objectIdIsValid venueFirstFails (grid_id scenarioGrid) \<and>
   gridCollection (scenarioWorld (Some 1)) (grid_id scenarioGrid) = Some scenarioGrid \<and>
   findGridLevelIndex scenarioGrid 118 \<noteq> 1 \<and>
   map_option currentPrice (gridCollection
     (processGrid venueFirstFails scenarioGrid (scenarioPrices 118) (scenarioWorld (Some 1)))
     (grid_id scenarioGrid)) = Some (Some 118) \<and>
   map_option currentGridIndex (gridCollection
     (processGrid venueFirstFails scenarioGrid (scenarioPrices 118) (scenarioWorld (Some 1)))
     (grid_id scenarioGrid)) = Some (Some 3) \<and>
   memoryInventory (scenarioWorld (Some 1)) (grid_id scenarioGrid) = Some (2, 200) \<and>
   memoryInventory
     (processGrid venueFirstFails scenarioGrid (scenarioPrices 118) (scenarioWorld (Some 1)))
     (grid_id scenarioGrid) = Some (26 / 23, 300) \<and>
   inventorySynced
     (processGrid venueFirstFails scenarioGrid (scenarioPrices 118) (scenarioWorld (Some 1)))
     (grid_id scenarioGrid) \<and>
   scenarioPrices 107 (targetTokenId scenarioGrid) = Some 107 \<and>
   findGridLevelIndex scenarioGrid 107 = 1 \<and>
   gridCollection
     (processGrid venueFirstFails scenarioGrid (scenarioPrices 107) (scenarioWorld (Some 1))) =
     gridCollection (scenarioWorld (Some 1)) \<and>
   gridStateMap
     (processGrid venueFirstFails scenarioGrid (scenarioPrices 107) (scenarioWorld (Some 1)))
     (grid_id scenarioGrid) = Some (scenarioState (Some 1)\<lparr>lastCheckedPrice := Some 107\<rparr>)"
proof -
  have before: "memoryInventory (scenarioWorld (Some 1)) (grid_id scenarioGrid) = Some (2, 200)"
    by (simp add: memoryInventory_def scenario_state scenarioState_def)
  have after: "memoryInventory
     (processGrid venueFirstFails scenarioGrid (scenarioPrices 118) (scenarioWorld (Some 1)))
     (grid_id scenarioGrid) = Some (26 / 23, 300)"
    by code_simp
  have idx: "storedLevelIndex (levels scenarioGrid) 118 = Some 3"
    by (simp add: storedLevelIndex_def sortedLevels_def scenario_levels)
  from checkpoint_when_level_changed [where tokenPrices = "scenarioPrices 118"
      and g = scenarioGrid and price = 118 and w = "scenarioWorld (Some 1)"
      and gs = "scenarioState (Some 1)" and previousLevel = 1 and e = venueFirstFails
      and doc = scenarioGrid]
    before after idx
  have a: "map_option currentPrice (gridCollection
       (processGrid venueFirstFails scenarioGrid (scenarioPrices 118) (scenarioWorld (Some 1)))
       (grid_id scenarioGrid)) = Some (Some 118) \<and>
     map_option currentGridIndex (gridCollection
       (processGrid venueFirstFails scenarioGrid (scenarioPrices 118) (scenarioWorld (Some 1)))
       (grid_id scenarioGrid)) = Some (Some 3) \<and>
     inventorySynced
       (processGrid venueFirstFails scenarioGrid (scenarioPrices 118) (scenarioWorld (Some 1)))
       (grid_id scenarioGrid)"
    by (simp add: scenario_price scenario_state scenario_index scenario_find
          scenario_valid scenario_doc)
  from checkpoint_when_level_changed [where tokenPrices = "scenarioPrices 107"
      and g = scenarioGrid and price = 107 and w = "scenarioWorld (Some 1)"
      and gs = "scenarioState (Some 1)" and previousLevel = 1 and e = venueFirstFails
      and doc = scenarioGrid]
  have b: "gridCollection
       (processGrid venueFirstFails scenarioGrid (scenarioPrices 107) (scenarioWorld (Some 1))) =
       gridCollection (scenarioWorld (Some 1)) \<and>
     gridStateMap
       (processGrid venueFirstFails scenarioGrid (scenarioPrices 107) (scenarioWorld (Some 1)))
       (grid_id scenarioGrid) = Some (scenarioState (Some 1)\<lparr>lastCheckedPrice := Some 107\<rparr>)"
    by (simp add: scenario_price scenario_state scenario_index scenario_find
          scenario_valid scenario_doc)
  from a b before after show ?thesis
    by (simp add: scenario_price scenario_state scenario_index scenario_find
          scenario_valid scenario_doc)
qed

end
